theory Spec2Isabelle
  imports Complex_Main
begin

section \<open>Candle data and compaction (CandlestickChart.tsx)\<close>

text \<open>
  JavaScript numbers are modelled as real numbers: the properties below are about the
  arithmetic the code writes down, not about IEEE rounding. Timestamps are the integer
  milliseconds of \<^verbatim>\<open>Date.now()\<close>. The optional field \<^verbatim>\<open>volume?: number\<close>
  of \<^verbatim>\<open>CandleData\<close> is an option. The field \<^verbatim>\<open>open\<close> is called
  \<open>open_c\<close>, since \<open>open\<close> is a constant of the library.
\<close>

record CandleData =
  open_c :: real
  high :: real
  low :: real
  close :: real
  time :: int
  volume :: "real option"

datatype error = Error string | TypeError

text \<open>
  \<^verbatim>\<open>Math.max(...xs)\<close> and \<^verbatim>\<open>Math.min(...xs)\<close>. The code calls them on
  lists of at least two elements only; on no argument JavaScript returns an infinity,
  which has no counterpart here, so the empty list is left out of the patterns.
\<close>

fun Math_max :: "real list \<Rightarrow> real" where
  "Math_max [x] = x"
| "Math_max (x # xs) = max x (Math_max xs)"

fun Math_min :: "real list \<Rightarrow> real" where
  "Math_min [x] = x"
| "Math_min (x # xs) = min x (Math_min xs)"

text \<open>\<^verbatim>\<open>candle.volume || 0\<close>: an absent volume counts as 0.\<close>

definition volumeOr0 :: "CandleData \<Rightarrow> real" where
  "volumeOr0 c = (case volume c of None \<Rightarrow> 0 | Some v \<Rightarrow> v)"

text \<open>
  \<^verbatim>\<open>[...candles].sort((a, b) => a.time - b.time)\<close> is a stable ascending sort on the
  timestamp, which is what \<open>sort_key time\<close> computes.
\<close>

definition maxWickExtension :: "real \<Rightarrow> real \<Rightarrow> real" where
  "maxWickExtension bodyRange priceLevel =
     (if bodyRange > 0 then min (bodyRange * 0.20) (priceLevel * 0.005)
      else priceLevel * 0.001)"

definition aggregateCandles :: "CandleData list \<Rightarrow> error + CandleData" where
  "aggregateCandles candles =
     (if length candles = 0 then Inl (Error ''Cannot aggregate empty candle array'')
      else if length candles = 1 then Inr (candles ! 0)
      else
        let sortedByTime = sort_key time candles;
            opn = open_c (sortedByTime ! 0);
            cls = close (sortedByTime ! (length sortedByTime - 1));
            bodyHigh = max opn cls;
            bodyLow = min opn cls;
            bodyRange = bodyHigh - bodyLow;
            allHighs = map high sortedByTime;
            allLows = map low sortedByTime;
            maxHigh = Math_max allHighs;
            minLow = Math_min allLows;
            priceLevel = (opn + cls) / 2;
            ext = maxWickExtension bodyRange priceLevel;
            limitedHigh = min maxHigh (bodyHigh + ext);
            limitedLow = max minLow (bodyLow - ext)
        in Inr \<lparr> open_c = opn, high = limitedHigh, low = limitedLow, close = cls,
                  time = time (sortedByTime ! 0),
                  volume = Some (foldl (\<lambda>sum candle. sum + volumeOr0 candle) 0 sortedByTime) \<rparr>)"

text \<open>
  \<^verbatim>\<open>performCandleAggregation\<close>: nothing below 30 candles; otherwise the first three
  are replaced by their aggregate. The exception of \<^verbatim>\<open>aggregateCandles\<close> would
  propagate.
\<close>

definition performCandleAggregation :: "CandleData list \<Rightarrow> error + CandleData list" where
  "performCandleAggregation chartData =
     (if length chartData < 30 then Inr chartData
      else
        let candlesToAggregate = take 3 chartData;
            remainingCandles = drop 3 chartData
        in case aggregateCandles candlesToAggregate of
             Inl e \<Rightarrow> Inl e
           | Inr aggregatedCandle \<Rightarrow> Inr (aggregatedCandle # remainingCandles))"

section \<open>Random source and clock\<close>

text \<open>
  \<^verbatim>\<open>Math.random()\<close> and \<^verbatim>\<open>Date.now()\<close> are the two inputs from outside. Each
  is an infinite stream of the values the successive calls return; a call takes the head
  and leaves the rest.
\<close>

type_synonym rng = "nat \<Rightarrow> real"
type_synonym clock = "nat \<Rightarrow> int"

definition Math_random :: "rng \<Rightarrow> real \<times> rng" where
  "Math_random g = (g 0, \<lambda>n. g (Suc n))"

definition Date_now :: "clock \<Rightarrow> int \<times> clock" where
  "Date_now k = (k 0, \<lambda>n. k (Suc n))"

text \<open>A source whose draws all lie in the half-open unit interval, as the language promises.\<close>

definition unitRng :: "rng \<Rightarrow> bool" where
  "unitRng g \<longleftrightarrow> (\<forall>n. 0 \<le> g n \<and> g n < 1)"

section \<open>Crash point generation\<close>

text \<open>\<^verbatim>\<open>generateCrashPoint\<close> of CandlestickChart.tsx (lines 293-310).\<close>

definition generateCrashPoint :: "rng \<Rightarrow> real \<times> rng" where
  "generateCrashPoint g =
     (let (random, g1) = Math_random g in
      if random < 0.8 then
        let (subOneRandom, g2) = Math_random g1; (r, g3) = Math_random g2 in
        if subOneRandom < 0.1 then (0.01 + r * 0.19, g3)
        else if subOneRandom < 0.3 then (0.20 + r * 0.30, g3)
        else (0.50 + r * 0.49, g3)
      else
        let (aboveOneRandom, g2) = Math_random g1; (r, g3) = Math_random g2 in
        if aboveOneRandom < 0.4 then (1.01 + r * 0.99, g3)
        else if aboveOneRandom < 0.7 then (2.00 + r * 3.00, g3)
        else if aboveOneRandom < 0.9 then (5.00 + r * 5.00, g3)
        else (10.00 + r * 15.00, g3))"

text \<open>
  \<^verbatim>\<open>generateCrashPoint\<close> of the implementation guide (its lines 84-101): the same
  buckets behind a first threshold of 0.3.
\<close>

definition generateCrashPoint_guide :: "rng \<Rightarrow> real \<times> rng" where
  "generateCrashPoint_guide g =
     (let (random, g1) = Math_random g in
      if random < 0.3 then
        let (subOneRandom, g2) = Math_random g1; (r, g3) = Math_random g2 in
        if subOneRandom < 0.1 then (0.01 + r * 0.19, g3)
        else if subOneRandom < 0.3 then (0.20 + r * 0.30, g3)
        else (0.50 + r * 0.49, g3)
      else
        let (aboveOneRandom, g2) = Math_random g1; (r, g3) = Math_random g2 in
        if aboveOneRandom < 0.4 then (1.01 + r * 0.99, g3)
        else if aboveOneRandom < 0.7 then (2.00 + r * 3.00, g3)
        else if aboveOneRandom < 0.9 then (5.00 + r * 5.00, g3)
        else (10.00 + r * 15.00, g3))"

section \<open>Price movement\<close>

text \<open>
  \<^verbatim>\<open>generatePriceMovement(currentPrice, volatility = 0.08)\<close>. The spike's own draw
  happens only when the test draw is below 0.15, so the noise is the third or the fourth
  draw of the call.
\<close>

definition generatePriceMovement :: "real \<Rightarrow> real \<Rightarrow> rng \<Rightarrow> real \<times> rng" where
  "generatePriceMovement currentPrice volatility g =
     (let (r1, g1) = Math_random g;
          trend = (r1 - 0.5) * 3;
          (r2, g2) = Math_random g1;
          (spike, g3) =
            (if r2 < 0.15 then (let (r3, g') = Math_random g2 in ((r3 - 0.5) * 0.2, g'))
             else (0, g2));
          (r4, g4) = Math_random g3;
          noise = (r4 - 0.5) * volatility * 1.5;
          momentum = trend * volatility * 0.8 + noise + spike;
          newPrice = currentPrice + momentum
      in (max 0.01 newPrice, g4))"

text \<open>The terms of the formula, read off a stream of draws.\<close>

definition trendOf :: "rng \<Rightarrow> real" where
  "trendOf g = (g 0 - 0.5) * 3"

definition spikeOf :: "rng \<Rightarrow> real" where
  "spikeOf g = (if g 1 < 0.15 then (g 2 - 0.5) * 0.2 else 0)"

definition noiseOf :: "real \<Rightarrow> rng \<Rightarrow> real" where
  "noiseOf volatility g = ((if g 1 < 0.15 then g 3 else g 2) - 0.5) * volatility * 1.5"

definition momentumOf :: "real \<Rightarrow> rng \<Rightarrow> real" where
  "momentumOf volatility g = trendOf g * volatility * 0.8 + noiseOf volatility g + spikeOf g"

text \<open>A run of steps, each from the previous output.\<close>

fun priceSteps :: "nat \<Rightarrow> real \<Rightarrow> rng \<Rightarrow> real list" where
  "priceSteps 0 p g = []"
| "priceSteps (Suc n) p g =
     (let (p', g') = generatePriceMovement p 0.08 g in p' # priceSteps n p' g')"

text \<open>
  The candles of the repository's own aggregation test (test-candle-aggregation.js, "huge
  wick prevention"), three seconds apart, and a buffer of thirty that starts with them.
\<close>

definition extremeCandles :: "CandleData list" where
  "extremeCandles =
     [\<lparr> open_c = 1.0, high = 1.02, low = 0.98, close = 1.01, time = 0, volume = None \<rparr>,
      \<lparr> open_c = 1.01, high = 2.5, low = 0.1, close = 1.02, time = 3000, volume = None \<rparr>,
      \<lparr> open_c = 1.02, high = 1.04, low = 1.0, close = 1.03, time = 6000, volume = None \<rparr>]"

definition thirtyCandles :: "CandleData list" where
  "thirtyCandles = extremeCandles @
     replicate 27 \<lparr> open_c = 1.03, high = 1.03, low = 1.03, close = 1.03, time = 9000, volume = None \<rparr>"


section \<open>The CrashChart component\<close>

text \<open>
  CrashChart.tsx is the chart in use (MainLayout imports it). Its hooks are the fields of
  one record; the calls of \<^verbatim>\<open>syncToBetting\<close> are logged in call order, and the
  pending timeouts are counted. The fields of its \<^verbatim>\<open>Candle\<close> carry the prefix
  \<open>c_\<close>, the names \<open>high\<close>, \<open>low\<close> and \<open>close\<close> being those of \<open>CandleData\<close>.
\<close>

datatype phase = waiting | running | crashed

record Candle =
  c_open :: real
  c_high :: real
  c_low :: real
  c_close :: real
  ticks :: nat
  animatedHigh :: real
  animatedLow :: real
  animatedClose :: real

record SyncState =
  isGameActive :: bool
  currentMultiplier :: real
  crashPoint :: real

definition TICKS_PER_CANDLE :: nat where "TICKS_PER_CANDLE = 65"
definition INTERPOLATION_SPEED :: real where "INTERPOLATION_SPEED = 0.15"
definition INITIAL_PRICE :: real where "INITIAL_PRICE = 1.0"
definition COUNTDOWN_SECONDS :: int where "COUNTDOWN_SECONDS = 5"

record CrashChart =
  phase :: phase
  targetPrice :: real
  displayPrice :: real
  crashPoint_st :: real
  countdown :: int
  candles :: "Candle list"
  synced :: "SyncState list"
  startTimeout :: bool
  crashTimeouts :: nat
  rand :: rng

text \<open>The component as mounted: the initial values of the hooks, the start timer pending.\<close>

definition mounted :: "rng \<Rightarrow> CrashChart" where
  "mounted g =
     \<lparr> phase = waiting, targetPrice = INITIAL_PRICE, displayPrice = INITIAL_PRICE,
       crashPoint_st = 0, countdown = 0, candles = [], synced = [],
       startTimeout = True, crashTimeouts = 0, rand = g \<rparr>"

definition generateCrashPoint_CrashChart :: "rng \<Rightarrow> real \<times> rng" where
  "generateCrashPoint_CrashChart g =
     (let (r, g1) = Math_random g; (x, g2) = Math_random g1 in
      if r < 0.3 then (0.5 + x * 0.49, g2)
      else if r < 0.7 then (1.01 + x * 1.5, g2)
      else if r < 0.9 then (2.5 + x * 5, g2)
      else (7.5 + x * 15, g2))"

definition syncToBetting :: "SyncState \<Rightarrow> CrashChart \<Rightarrow> CrashChart" where
  "syncToBetting snapshot s = s\<lparr>synced := synced s @ [snapshot]\<rparr>"

definition startGame :: "CrashChart \<Rightarrow> CrashChart" where
  "startGame s =
     (let (newCrashPoint, g) = generateCrashPoint_CrashChart (rand s) in
      syncToBetting
        \<lparr> isGameActive = True, currentMultiplier = INITIAL_PRICE, crashPoint = newCrashPoint \<rparr>
        (s\<lparr> crashPoint_st := newCrashPoint,
            targetPrice := INITIAL_PRICE,
            displayPrice := INITIAL_PRICE,
            phase := running,
            countdown := 0,
            candles := [\<lparr> c_open = INITIAL_PRICE, c_high = INITIAL_PRICE, c_low = INITIAL_PRICE,
                          c_close = INITIAL_PRICE, ticks = 0, animatedHigh = INITIAL_PRICE,
                          animatedLow = INITIAL_PRICE, animatedClose = INITIAL_PRICE \<rparr>],
            rand := g \<rparr>))"

text \<open>
  The render loop's update of the displayed price (lines 110-115). The target it reads
  from \<^verbatim>\<open>targetPriceRef\<close> is the target price of the state, which an effect copies
  into the ref.
\<close>

definition interpolate :: "real \<Rightarrow> real \<Rightarrow> real" where
  "interpolate target prev =
     (let diff = target - prev in
      if \<bar>diff\<bar> < 0.0001 then target else prev + diff * INTERPOLATION_SPEED)"

definition renderFrame :: "CrashChart \<Rightarrow> CrashChart" where
  "renderFrame s = s\<lparr>displayPrice := interpolate (targetPrice s) (displayPrice s)\<rparr>"

text \<open>The price of a game tick (lines 243-248).\<close>

definition tickPrice :: "real \<Rightarrow> rng \<Rightarrow> real \<times> rng" where
  "tickPrice prev g =
     (let volatility = 0.016;
          (r1, g1) = Math_random g;
          trend = (r1 - 0.5) * 0.3;
          (r2, g2) = Math_random g1;
          (spike, g3) =
            (if r2 < 0.02 then (let (r3, g') = Math_random g2 in ((r3 - 0.5) * 0.22, g'))
             else (0, g2));
          (r4, g4) = Math_random g3;
          noise = (r4 - 0.5) * volatility;
          momentum = trend * volatility + noise + spike
      in (max 0.01 (prev + momentum), g4))"

definition isCrash :: "real \<Rightarrow> real \<Rightarrow> bool" where
  "isCrash cp newPrice \<longleftrightarrow> (cp < 1 \<and> newPrice \<le> cp) \<or> (cp \<ge> 1 \<and> newPrice \<ge> cp)"

text \<open>The update of the candles on a tick that does not crash (lines 264-318).\<close>

definition updateCandles :: "real \<Rightarrow> Candle list \<Rightarrow> Candle list" where
  "updateCandles newPrice prev =
     (if length prev = 0 then
        [\<lparr> c_open = newPrice, c_high = newPrice, c_low = newPrice, c_close = newPrice,
           ticks = 1, animatedHigh = newPrice, animatedLow = newPrice,
           animatedClose = newPrice \<rparr>]
      else
        let lst = prev ! (length prev - 1);
            newTicks = ticks lst + 1;
            wickLimit = 0.015;
            bodyHigh = max (c_open lst) newPrice;
            bodyLow = min (c_open lst) newPrice;
            maxHigh = bodyHigh + wickLimit;
            maxLow = bodyLow - wickLimit;
            actualHigh = min (max (c_high lst) newPrice) maxHigh;
            actualLow = max (min (c_low lst) newPrice) maxLow;
            animSpeed = 0.4
        in if newTicks \<ge> TICKS_PER_CANDLE then
             let finalized = lst\<lparr> c_close := newPrice, c_high := actualHigh, c_low := actualLow,
                                 ticks := newTicks, animatedHigh := actualHigh,
                                 animatedLow := actualLow, animatedClose := newPrice \<rparr>;
                 newCandle = \<lparr> c_open = newPrice, c_high = newPrice, c_low = newPrice,
                               c_close = newPrice, ticks = 0, animatedHigh = newPrice,
                               animatedLow = newPrice, animatedClose = newPrice \<rparr>;
                 xs = butlast prev @ [finalized, newCandle]
             in drop (length xs - 50) xs
           else
             butlast prev @
               [lst\<lparr> c_high := actualHigh, c_low := actualLow, c_close := newPrice,
                     ticks := newTicks,
                     animatedHigh := animatedHigh lst + (actualHigh - animatedHigh lst) * animSpeed,
                     animatedLow := animatedLow lst + (actualLow - animatedLow lst) * animSpeed,
                     animatedClose := animatedClose lst + (newPrice - animatedClose lst) * animSpeed \<rparr>])"

text \<open>
  The callback of the tick interval (lines 240-322). The crash point is the one of the
  render that created the interval, which is the state's, the effect being re-run when it
  changes. On a crash the timeout that will set the countdown is registered.
\<close>

definition gameTick :: "CrashChart \<Rightarrow> CrashChart" where
  "gameTick s =
     (let cp = crashPoint_st s;
          (newPrice, g) = tickPrice (targetPrice s) (rand s) in
      if isCrash cp newPrice then
        (syncToBetting \<lparr> isGameActive = False, currentMultiplier = cp, crashPoint = cp \<rparr>
           (s\<lparr> phase := crashed, rand := g \<rparr>))
          \<lparr> candles := candles s @
               [\<lparr> c_open = newPrice, c_high = newPrice, c_low = 0, c_close = 0, ticks = 0,
                  animatedHigh = newPrice, animatedLow = 0, animatedClose = 0 \<rparr>],
            crashTimeouts := Suc (crashTimeouts s),
            targetPrice := cp \<rparr>
      else
        (syncToBetting \<lparr> isGameActive = True, currentMultiplier = newPrice, crashPoint = cp \<rparr>
           (s\<lparr> candles := updateCandles newPrice (candles s), rand := g \<rparr>))
          \<lparr> targetPrice := newPrice \<rparr>)"

text \<open>The timeout registered on a crash: \<^verbatim>\<open>setCountdown(COUNTDOWN_SECONDS)\<close>.\<close>

definition crashDelayElapsed :: "CrashChart \<Rightarrow> CrashChart" where
  "crashDelayElapsed s = s\<lparr> countdown := COUNTDOWN_SECONDS, crashTimeouts := crashTimeouts s - 1 \<rparr>"

text \<open>The callback of the countdown interval (lines 332-340).\<close>

definition countdownTick :: "CrashChart \<Rightarrow> CrashChart" where
  "countdownTick s =
     (if countdown s \<le> 1 then (startGame s)\<lparr> countdown := 0 \<rparr>
      else s\<lparr> countdown := countdown s - 1 \<rparr>)"

text \<open>
  What can happen to the component: a callback runs when its timer exists. The tick
  interval exists while the phase is running (line 238), the countdown interval while the
  countdown is positive (line 330), the start timeout once after mounting, a crash
  timeout once per crash. The render loop always runs.
\<close>

datatype event = StartTimeout | GameTick | CrashDelayElapsed | CountdownTick | RenderFrame

fun step :: "event \<Rightarrow> CrashChart \<Rightarrow> CrashChart" where
  "step StartTimeout s = (if startTimeout s then startGame (s\<lparr> startTimeout := False \<rparr>) else s)"
| "step GameTick s = (if phase s = running then gameTick s else s)"
| "step CrashDelayElapsed s = (if crashTimeouts s > 0 then crashDelayElapsed s else s)"
| "step CountdownTick s = (if countdown s > 0 then countdownTick s else s)"
| "step RenderFrame s = renderFrame s"

text \<open>The states passed through by a sequence of events, the starting state first.\<close>

fun trace :: "event list \<Rightarrow> CrashChart \<Rightarrow> CrashChart list" where
  "trace [] s = [s]"
| "trace (e # es) s = s # trace es (step e s)"

text \<open>Iterating the render update against a fixed target.\<close>

fun interpolateN :: "nat \<Rightarrow> real \<Rightarrow> real \<Rightarrow> real" where
  "interpolateN 0 target d = d"
| "interpolateN (Suc n) target d = interpolateN n target (interpolate target d)"


section \<open>The CandlestickChart component\<close>

text \<open>
  The older chart, CandlestickChart.tsx, the one that compacts its candles. Its state is
  the game state, the chart data and the interval timers; what it sends to the betting
  context is logged in call order. State updates take effect in the order in which React
  runs them, which is the order of the program except for the update of the game state
  that the tick issues from inside its updater of the chart data (see \<open>candleTick\<close>).
  Left out is what only the drawing reads (the smoothed price, the refs of the latest values, the
  canvas), the countdown that follows a crash, and the effect that copies the close of
  the last candle into the multiplier of an active game.
\<close>

record CrashGameState =
  isActive :: bool
  isPreparing :: bool
  multiplier :: real
  hasCrashed :: bool
  crashPoint_gs :: real
  timeElapsed :: real
  countdown_gs :: int

text \<open>
  What the callbacks created by one call of \<^verbatim>\<open>startNewGame\<close> close over: the crash
  point and the running target price of that call, and the \<^verbatim>\<open>testMode\<close> and
  \<^verbatim>\<open>chartData\<close> of the render the function belongs to.
\<close>

record closure =
  newCrashPoint :: real
  targetPriceValue :: real
  testMode :: bool
  chartData_cl :: "CandleData list"

text \<open>
  The live interval timers that tick are kept with their identifiers and closures. The
  identifiers are handed out in increasing order. An interval whose callback does nothing
  (the one \<^verbatim>\<open>startNewGame\<close> creates to learn the highest identifier) only takes an
  identifier.
\<close>

record ChartState =
  gameState :: CrashGameState
  chartData :: "CandleData list"
  bettingSync :: "SyncState list"
  candleIntervalRef :: "nat option"
  intervals :: "(nat \<times> closure) list"
  nextId :: nat
  firstCandleTimeouts :: nat
  rnd :: rng
  clk :: clock

definition chartMounted :: "rng \<Rightarrow> clock \<Rightarrow> ChartState" where
  "chartMounted g k =
     \<lparr> gameState = \<lparr> isActive = False, isPreparing = False, multiplier = 1.00,
                      hasCrashed = False, crashPoint_gs = 0, timeElapsed = 0,
                      countdown_gs = 0 \<rparr>,
       chartData = [], bettingSync = [], candleIntervalRef = None, intervals = [],
       nextId = 1, firstCandleTimeouts = 0, rnd = g, clk = k \<rparr>"

text \<open>\<^verbatim>\<open>generateVolume(baseVolume = 1000000, volatility = 0.3)\<close>.\<close>

definition generateVolume :: "real \<Rightarrow> real \<Rightarrow> rng \<Rightarrow> real \<times> rng" where
  "generateVolume baseVolume volatility g =
     (let (a, g1) = Math_random g;
          randomFactor = 0.5 + a;
          (b, g2) = Math_random g1;
          volatilityFactor = 1 + (b - 0.5) * volatility
      in (of_int \<lfloor>baseVolume * randomFactor * volatilityFactor\<rfloor>, g2))"

text \<open>
  \<^verbatim>\<open>updateGameState\<close>, in its form that takes a function (the object form is the
  function that overwrites the given fields): the new game state is stored and its
  snapshot sent to the betting context.
\<close>

definition updateGameState :: "(CrashGameState \<Rightarrow> CrashGameState) \<Rightarrow> ChartState \<Rightarrow> ChartState" where
  "updateGameState newState s =
     (let updatedState = newState (gameState s);
          syncState = \<lparr> isGameActive = isActive updatedState,
                        currentMultiplier = multiplier updatedState,
                        crashPoint = crashPoint_gs updatedState \<rparr>
      in s\<lparr> gameState := updatedState, bettingSync := bettingSync s @ [syncState] \<rparr>)"

definition clearInterval :: "nat \<Rightarrow> ChartState \<Rightarrow> ChartState" where
  "clearInterval i s = s\<lparr> intervals := filter (\<lambda>(j, c). j \<noteq> i) (intervals s) \<rparr>"

definition setInterval :: "closure \<Rightarrow> ChartState \<Rightarrow> nat \<times> ChartState" where
  "setInterval c s = (nextId s, s\<lparr> intervals := intervals s @ [(nextId s, c)], nextId := Suc (nextId s) \<rparr>)"

text \<open>
  The candle written on every tick, closing or not (lines 570-575 and 605-610): the new
  value becomes the close and widens the high and the low.
\<close>

definition updatedLastCandle :: "CandleData \<Rightarrow> real \<Rightarrow> CandleData" where
  "updatedLastCandle lastCandle v =
     lastCandle\<lparr> close := v, high := max (high lastCandle) v, low := min (low lastCandle) v \<rparr>"

text \<open>\<^verbatim>\<open>xs.slice(-n)\<close>: the last \<open>n\<close> elements.\<close>

definition slice_last :: "nat \<Rightarrow> 'a list \<Rightarrow> 'a list" where
  "slice_last n xs = drop (length xs - n) xs"

text \<open>
  The update of the chart data on a tick (lines 557-623). On an empty chart
  \<^verbatim>\<open>prev[prev.length - 1]\<close> is undefined and reading its \<^verbatim>\<open>time\<close> throws.
\<close>

definition tickChartData :: "bool \<Rightarrow> int \<Rightarrow> real \<Rightarrow> rng \<Rightarrow> CandleData list
    \<Rightarrow> error + (CandleData list \<times> rng)" where
  "tickChartData tm now v g prev =
     (if length prev = 0 then Inl TypeError
      else
        let lastCandle = prev ! (length prev - 1);
            candleInterval = (if tm then 500 else 3000)
        in if now - time lastCandle \<ge> candleInterval then
             let (vol, g') = generateVolume 1000000 0.3 g;
                 newCandle = \<lparr> open_c = v, high = v, low = v, close = v, time = now,
                               volume = Some vol \<rparr>;
                 updated = butlast prev @ [updatedLastCandle lastCandle v, newCandle]
             in case performCandleAggregation updated of
                  Inl e \<Rightarrow> Inl e
                | Inr updated' \<Rightarrow> Inr (slice_last 100 updated', g')
           else Inr (butlast prev @ [updatedLastCandle lastCandle v], g))"

text \<open>
  The candles of a crash (lines 637-653). \<^verbatim>\<open>lastPrice\<close> is the close of the last
  captured candle, or the current value when no chart data was captured;
  \<^verbatim>\<open>finalizedCurrentCandle\<close> is that captured candle (its close written onto
  itself), or a flat candle at the current value; \<^verbatim>\<open>crashCandle\<close> is the collapse
  candle, which falls to 0.
\<close>

definition lastPrice :: "closure \<Rightarrow> real" where
  "lastPrice c =
     (if length (chartData_cl c) > 0
      then close (chartData_cl c ! (length (chartData_cl c) - 1))
      else targetPriceValue c)"

definition finalizedCurrentCandle :: "closure \<Rightarrow> rng \<Rightarrow> clock \<Rightarrow> CandleData \<times> rng \<times> clock" where
  "finalizedCurrentCandle c g k =
     (if length (chartData_cl c) > 0
      then ((chartData_cl c ! (length (chartData_cl c) - 1))\<lparr> close := lastPrice c \<rparr>, g, k)
      else
        let v = targetPriceValue c;
            (t, k') = Date_now k;
            (vol, g') = generateVolume 1000000 0.3 g
        in (\<lparr> open_c = v, high = v, low = v, close = v, time = t, volume = Some vol \<rparr>, g', k'))"

definition crashCandle :: "closure \<Rightarrow> rng \<Rightarrow> clock \<Rightarrow> CandleData \<times> rng \<times> clock" where
  "crashCandle c g k =
     (let (t, k') = Date_now k;
          (vol, g') = generateVolume 2000000 0.5 g
      in (\<lparr> open_c = lastPrice c, high = lastPrice c, low = 0, close = 0, time = t + 100,
            volume = Some vol \<rparr>, g', k'))"

text \<open>
  The update of the chart data on a crash (lines 656-661): the last candle is replaced by
  the finalized one, the collapse candle is appended, and the result is compacted.
\<close>

definition crashChartData :: "closure \<Rightarrow> rng \<Rightarrow> clock \<Rightarrow> CandleData list
    \<Rightarrow> error + (CandleData list \<times> rng \<times> clock)" where
  "crashChartData c g k prev =
     (let (finalized, g1, k1) = finalizedCurrentCandle c g k;
          (collapse, g2, k2) = crashCandle c g1 k1;
          updated = butlast prev @ [finalized, collapse]
      in case performCandleAggregation updated of
           Inl e \<Rightarrow> Inl e
         | Inr updated' \<Rightarrow> Inr (updated', g2, k2))"

text \<open>
  The callback of the candle interval (lines 550-731), for the closure of its round. It
  returns the closure with the new target price. On a crash it clears the interval that
  the reference holds. The timeout that later starts the countdown is not modelled.

  The tick sets the multiplier to the new price from inside the updater it passes to
  \<^verbatim>\<open>setChartData\<close> (lines 597-600 and 616-619). The callback has called
  \<^verbatim>\<open>setTargetPrice\<close> before, so React does not run that updater at once but when it
  renders, after the callback has returned. The update of the game state that a crash
  makes (lines 664-682) is queued by the callback itself and so runs first; the update of
  the multiplier to the new price comes on top of it, and its snapshot is the last one
  sent. The two updaters of the chart data run in the order in which they were queued.
\<close>

definition candleTick :: "closure \<Rightarrow> ChartState \<Rightarrow> error + (closure \<times> ChartState)" where
  "candleTick c s =
     (let (v, g1) = generatePriceMovement (targetPriceValue c) 0.08 (rnd s);
          c1 = c\<lparr> targetPriceValue := v \<rparr>;
          (now, k1) = Date_now (clk s)
      in case tickChartData (testMode c) now v g1 (chartData s) of
           Inl e \<Rightarrow> Inl e
         | Inr (cd, g2) \<Rightarrow>
             let s1 = s\<lparr> chartData := cd, rnd := g2, clk := k1 \<rparr>
             in if (newCrashPoint c < 1.0 \<and> v \<le> newCrashPoint c)
                   \<or> (newCrashPoint c \<ge> 1.0 \<and> v \<ge> newCrashPoint c) then
                  let s2 = (case candleIntervalRef s1 of
                              None \<Rightarrow> s1
                            | Some i \<Rightarrow> (clearInterval i s1)\<lparr> candleIntervalRef := None \<rparr>)
                  in case crashChartData c1 (rnd s2) (clk s2) (chartData s2) of
                       Inl e \<Rightarrow> Inl e
                     | Inr (cd', g3, k3) \<Rightarrow>
                         Inr (c1, updateGameState
                                (\<lambda>currentState. currentState\<lparr> multiplier := v \<rparr>)
                                (updateGameState
                                   (\<lambda>prev. prev\<lparr> isActive := False, isPreparing := False,
                                                  hasCrashed := True,
                                                  multiplier := newCrashPoint c,
                                                  crashPoint_gs := newCrashPoint c \<rparr>)
                                   (s2\<lparr> chartData := cd', rnd := g3, clk := k3 \<rparr>)))
                else Inr (c1, updateGameState
                                (\<lambda>currentState. currentState\<lparr> multiplier := v \<rparr>) s1))"

text \<open>
  \<^verbatim>\<open>startNewGame\<close> (lines 467-548), called in a render whose \<^verbatim>\<open>testMode\<close> and
  \<^verbatim>\<open>chartData\<close> are given. The interval held by the reference is cleared, then every
  interval with an identifier from 1000 up to that of a fresh do-nothing interval; the
  new tick interval is created last.
\<close>

definition startNewGame :: "bool \<Rightarrow> CandleData list \<Rightarrow> ChartState \<Rightarrow> ChartState" where
  "startNewGame tm cap s =
     (let s1 = updateGameState
                 (\<lambda>prev. \<lparr> isActive = True, isPreparing = False, multiplier = 1.00,
                            hasCrashed = False, crashPoint_gs = 0, timeElapsed = 0,
                            countdown_gs = 0 \<rparr>) s;
          s2 = (case candleIntervalRef s1 of
                  None \<Rightarrow> s1
                | Some i \<Rightarrow> (clearInterval i s1)\<lparr> candleIntervalRef := None \<rparr>);
          allIntervals = nextId s2;
          s3 = s2\<lparr> nextId := Suc allIntervals,
                   intervals := filter (\<lambda>(j, c). \<not> (1000 \<le> j \<and> j \<le> allIntervals)) (intervals s2) \<rparr>;
          (cp, g) = generateCrashPoint (rnd s3);
          initialPrice = 1.0;
          s4 = updateGameState (\<lambda>prev. prev\<lparr> multiplier := initialPrice \<rparr>) (s3\<lparr> rnd := g \<rparr>);
          s5 = s4\<lparr> chartData := [] \<rparr>;
          s6 = updateGameState
                 (\<lambda>prev. prev\<lparr> isActive := True, isPreparing := False,
                                multiplier := initialPrice, hasCrashed := False,
                                crashPoint_gs := cp, timeElapsed := 0, countdown_gs := 0 \<rparr>) s5;
          s7 = s6\<lparr> firstCandleTimeouts := Suc (firstCandleTimeouts s6) \<rparr>;
          (i, s8) = setInterval \<lparr> newCrashPoint = cp, targetPriceValue = initialPrice,
                                  testMode = tm, chartData_cl = cap \<rparr> s7
      in s8\<lparr> candleIntervalRef := Some i \<rparr>)"

text \<open>The timeout that puts the first candle on the chart (lines 530-541).\<close>

definition firstCandle :: "ChartState \<Rightarrow> ChartState" where
  "firstCandle s =
     (let initialPrice = 1.0;
          (t, k) = Date_now (clk s);
          (vol, g) = generateVolume 1000000 0.3 (rnd s)
      in s\<lparr> chartData := [\<lparr> open_c = initialPrice, high = initialPrice, low = initialPrice,
                              close = initialPrice, time = t, volume = Some vol \<rparr>],
            firstCandleTimeouts := firstCandleTimeouts s - 1, rnd := g, clk := k \<rparr>)"

text \<open>The fade-out after a crash takes the last candle away (lines 695-703).\<close>

definition fadeOut :: "ChartState \<Rightarrow> ChartState" where
  "fadeOut s = s\<lparr> chartData := butlast (chartData s) \<rparr>"

text \<open>
  An interval fires: the runtime calls the callback of a live interval and never that of
  a cleared one. The closure keeps the target price the callback assigned.
\<close>

definition fire :: "nat \<Rightarrow> ChartState \<Rightarrow> error + ChartState" where
  "fire i s =
     (case map_of (intervals s) i of
        None \<Rightarrow> Inr s
      | Some c \<Rightarrow>
          (case candleTick c s of
             Inl e \<Rightarrow> Inl e
           | Inr (c', s') \<Rightarrow>
               Inr (s'\<lparr> intervals := map (\<lambda>(j, d). if j = i then (j, c') else (j, d)) (intervals s') \<rparr>)))"

datatype chartEvent =
    StartNewGame bool "CandleData list"
  | FirstCandleTimeout
  | Fire nat
  | FadeOut

fun chartStep :: "chartEvent \<Rightarrow> ChartState \<Rightarrow> error + ChartState" where
  "chartStep (StartNewGame tm cap) s = Inr (startNewGame tm cap s)"
| "chartStep FirstCandleTimeout s = (if firstCandleTimeouts s > 0 then Inr (firstCandle s) else Inr s)"
| "chartStep (Fire i) s = fire i s"
| "chartStep FadeOut s = Inr (fadeOut s)"

fun chartRun :: "chartEvent list \<Rightarrow> ChartState \<Rightarrow> error + ChartState" where
  "chartRun [] s = Inr s"
| "chartRun (e # es) s = (case chartStep e s of Inl err \<Rightarrow> Inl err | Inr s' \<Rightarrow> chartRun es s')"

text \<open>The invariant of a candle, and the candles whose prices are not negative.\<close>

definition candleInvariant :: "CandleData \<Rightarrow> bool" where
  "candleInvariant c \<longleftrightarrow> low c \<le> min (open_c c) (close c) \<and> high c \<ge> max (open_c c) (close c)"

definition goodCandle :: "CandleData \<Rightarrow> bool" where
  "goodCandle c \<longleftrightarrow> candleInvariant c \<and> 0 \<le> low c"

text \<open>The chart data captured by the calls of \<^verbatim>\<open>startNewGame\<close> in a sequence of events.\<close>

fun capturedBy :: "chartEvent \<Rightarrow> CandleData list" where
  "capturedBy (StartNewGame tm cap) = cap"
| "capturedBy e = []"

text \<open>
  The states the component reaches. \<^verbatim>\<open>startNewGame\<close> is the function of some render,
  and the chart data it has captured is the chart of that render, that is, of a state
  reached before; the test mode is whatever the user has set.
\<close>

inductive reachable :: "ChartState \<Rightarrow> bool" where
  reachable_mounted: "reachable (chartMounted g k)"
| reachable_start: "reachable s \<Longrightarrow> reachable r \<Longrightarrow> reachable (startNewGame tm (chartData r) s)"
| reachable_first: "reachable s \<Longrightarrow> firstCandleTimeouts s > 0 \<Longrightarrow> reachable (firstCandle s)"
| reachable_fire: "reachable s \<Longrightarrow> fire i s = Inr s' \<Longrightarrow> reachable s'"
| reachable_fade: "reachable s \<Longrightarrow> reachable (fadeOut s)"

text \<open>
  The invariant of the chart state: the candles on the chart, and those captured by the
  live tick closures, are good candles.
\<close>

definition goodClosure :: "closure \<Rightarrow> bool" where
  "goodClosure c \<longleftrightarrow> (\<forall>x \<in> set (chartData_cl c). goodCandle x)"

definition chartInvariant :: "ChartState \<Rightarrow> bool" where
  "chartInvariant s \<longleftrightarrow>
     (\<forall>c \<in> set (chartData s). goodCandle c) \<and> (\<forall>p \<in> set (intervals s). goodClosure (snd p))"

text \<open>
  For the examples: the CrashChart component after its start and four ticks, every draw
  being 0 (the crash point is 0.5 then); and, for CandlestickChart, a random source whose
  first three draws are 0.5 and whose later draws are 0 (the crash point is 0.745 then,
  and the first tick steps from 1 to 0.744), with a clock that advances by 100 ms from
  one reading to the next.
\<close>

definition fourTicks :: CrashChart where
  "fourTicks = last (trace [StartTimeout, GameTick, GameTick, GameTick, GameTick] (mounted (\<lambda>n. 0)))"

definition halvesThenZeros :: rng where
  "halvesThenZeros n = (if n < 3 then 1/2 else 0)"

definition advancing :: clock where
  "advancing n = 1000 + 100 * int n"





section \<open>Compaction: helper facts\<close>

lemma Math_max_Max: "xs \<noteq> [] \<Longrightarrow> Math_max xs = Max (set xs)"
  by (induction xs rule: Math_max.induct) (auto simp: max_def)

lemma Math_min_Min: "xs \<noteq> [] \<Longrightarrow> Math_min xs = Min (set xs)"
  by (induction xs rule: Math_min.induct) (auto simp: min_def)

lemma aggregateCandles_fields:
  assumes "2 \<le> length cs"
  shows "\<exists>m. aggregateCandles cs = Inr m
     \<and> open_c m = open_c (hd (sort_key time cs))
     \<and> close m = close (last (sort_key time cs))
     \<and> time m = time (hd (sort_key time cs))
     \<and> high m = min (Max (high ` set cs))
           (max (open_c m) (close m)
             + maxWickExtension (max (open_c m) (close m) - min (open_c m) (close m))
                 ((open_c m + close m) / 2))
     \<and> low m = max (Min (low ` set cs))
           (min (open_c m) (close m)
             - maxWickExtension (max (open_c m) (close m) - min (open_c m) (close m))
                 ((open_c m + close m) / 2))"
proof -
  let ?s = "sort_key time cs"
  have len: "length ?s = length cs" by simp
  from assms have "cs \<noteq> []" by auto
  moreover from assms len have "?s \<noteq> []" by (metis length_0_conv not_numeral_le_zero)
  ultimately have ne: "cs \<noteq> []" "?s \<noteq> []" by auto
  have h0: "?s ! 0 = hd ?s" using ne by (simp add: hd_conv_nth)
  have hl: "?s ! (length ?s - 1) = last ?s" using ne by (simp add: last_conv_nth)
  have mx: "Math_max (map high ?s) = Max (high ` set cs)"
    using ne by (simp add: Math_max_Max)
  have mn: "Math_min (map low ?s) = Min (low ` set cs)"
    using ne by (simp add: Math_min_Min)
  from assms have l: "length cs \<noteq> 0" "length cs \<noteq> 1" by auto
  show ?thesis
    unfolding aggregateCandles_def Let_def
    using l h0 hl mx mn by simp
qed

lemma sorted3_hd_last:
  assumes "length xs = 3" "sorted (map time xs)"
  shows "hd (sort_key time xs) = xs ! 0 \<and> last (sort_key time xs) = xs ! 2"
proof -
  have "sort_key time xs = xs" using assms(2) by (simp add: sort_key_id_if_sorted)
  moreover from assms(1) have "xs \<noteq> []" by auto
  ultimately show ?thesis using assms(1) by (simp add: hd_conv_nth last_conv_nth)
qed

text \<open>The aggregate of the three candles of the repository's extreme-wick test.\<close>

lemma aggregate_extreme:
  "aggregateCandles extremeCandles =
     Inr \<lparr> open_c = 1.0, high = 1.035075, low = 0.994925, close = 1.03, time = 0,
           volume = Some 0 \<rparr>"
  by (simp add: aggregateCandles_def extremeCandles_def Let_def maxWickExtension_def volumeOr0_def)

section \<open>C10: errors of aggregateCandles\<close>

text \<open>
  Claim C10. \<^verbatim>\<open>aggregateCandles\<close> applied to the empty list throws the error
  "Cannot aggregate empty candle array"; applied to a one-element list it returns that
  candle as it is, with no wick bounding; and on every list of two or more candles it
  returns a candle and does not throw.
\<close>

theorem aggregateCandles_errors:
  "aggregateCandles [] = Inl (Error ''Cannot aggregate empty candle array'')
   \<and> aggregateCandles [c] = Inr c
   \<and> (2 \<le> length cs \<longrightarrow> (\<exists>m. aggregateCandles cs = Inr m))"
  by (auto simp add: aggregateCandles_def Let_def)

theorem aggregateCandles_errors_witness:
  "2 \<le> length extremeCandles \<and> (\<exists>m. aggregateCandles extremeCandles = Inr m)"
proof -
  have h: "2 \<le> length extremeCandles" by (simp add: extremeCandles_def)
  with aggregateCandles_errors [of "hd extremeCandles" extremeCandles] show ?thesis by blast
qed

section \<open>C3: what compaction produces\<close>

text \<open>
  Claim C3. When \<^verbatim>\<open>performCandleAggregation\<close> compacts (thirty candles or more), the
  three oldest candles are replaced by one, so the buffer is shorter by exactly two, and
  the rest follows unchanged. With the three source candles taken in chronological order
  (the code sorts them by timestamp, and this is the buffer's order when the buffer is
  chronological), the merged candle has the first one's open and timestamp and the last
  one's close; its high is the smaller of the greatest source high and
  \<open>bodyHigh + maxExt\<close>, its low the greater of the least source low and
  \<open>bodyLow - maxExt\<close>, where \<open>maxExt\<close> is \<open>min (bodyRange * 0.20) (priceLevel * 0.005)\<close>
  for a positive body range and \<open>priceLevel * 0.001\<close> otherwise. The witness is the
  repository's own extreme-wick test: the merged high is 1.035075 where the plain maximum
  of the highs is 2.5, so the plain max/min merge is not what the code computes.
\<close>

theorem compaction_merges_oldest_three:
  "30 \<le> length buffer \<longrightarrow>
    (\<exists>merged. performCandleAggregation buffer = Inr (merged # drop 3 buffer)
       \<and> length (merged # drop 3 buffer) + 2 = length buffer
       \<and> (let src = take 3 buffer;
               first = hd (sort_key time src);
               lst = last (sort_key time src);
               bodyHigh = max (open_c merged) (close merged);
               bodyLow = min (open_c merged) (close merged);
               bodyRange = bodyHigh - bodyLow;
               priceLevel = (open_c merged + close merged) / 2;
               maxExt = (if bodyRange > 0 then min (bodyRange * 0.20) (priceLevel * 0.005)
                         else priceLevel * 0.001)
           in open_c merged = open_c first
            \<and> close merged = close lst
            \<and> time merged = time first
            \<and> high merged = min (Max (high ` set src)) (bodyHigh + maxExt)
            \<and> low merged = max (Min (low ` set src)) (bodyLow - maxExt)
            \<and> (sorted (map time src) \<longrightarrow> first = buffer ! 0 \<and> lst = buffer ! 2)))"
proof
  assume len: "30 \<le> length buffer"
  let ?src = "take 3 buffer"
  from len have l3: "length ?src = 3" by simp
  then have "2 \<le> length ?src" by simp
  from aggregateCandles_fields [OF this] obtain m where m:
    "aggregateCandles ?src = Inr m"
    "open_c m = open_c (hd (sort_key time ?src))"
    "close m = close (last (sort_key time ?src))"
    "time m = time (hd (sort_key time ?src))"
    "high m = min (Max (high ` set ?src))
           (max (open_c m) (close m)
             + maxWickExtension (max (open_c m) (close m) - min (open_c m) (close m))
                 ((open_c m + close m) / 2))"
    "low m = max (Min (low ` set ?src))
           (min (open_c m) (close m)
             - maxWickExtension (max (open_c m) (close m) - min (open_c m) (close m))
                 ((open_c m + close m) / 2))"
    by blast
  have p: "performCandleAggregation buffer = Inr (m # drop 3 buffer)"
    using len m(1) by (simp add: performCandleAggregation_def Let_def)
  have n: "length (m # drop 3 buffer) + 2 = length buffer"
    using len by simp
  have s: "sorted (map time ?src) \<longrightarrow>
      hd (sort_key time ?src) = buffer ! 0 \<and> last (sort_key time ?src) = buffer ! 2"
    using sorted3_hd_last [OF l3] by simp
  show "\<exists>merged. performCandleAggregation buffer = Inr (merged # drop 3 buffer)
       \<and> length (merged # drop 3 buffer) + 2 = length buffer
       \<and> (let src = take 3 buffer;
               first = hd (sort_key time src);
               lst = last (sort_key time src);
               bodyHigh = max (open_c merged) (close merged);
               bodyLow = min (open_c merged) (close merged);
               bodyRange = bodyHigh - bodyLow;
               priceLevel = (open_c merged + close merged) / 2;
               maxExt = (if bodyRange > 0 then min (bodyRange * 0.20) (priceLevel * 0.005)
                         else priceLevel * 0.001)
           in open_c merged = open_c first
            \<and> close merged = close lst
            \<and> time merged = time first
            \<and> high merged = min (Max (high ` set src)) (bodyHigh + maxExt)
            \<and> low merged = max (Min (low ` set src)) (bodyLow - maxExt)
            \<and> (sorted (map time src) \<longrightarrow> first = buffer ! 0 \<and> lst = buffer ! 2))"
  proof (intro exI [of _ m] conjI)
    show "performCandleAggregation buffer = Inr (m # drop 3 buffer)" by (rule p)
    show "length (m # drop 3 buffer) + 2 = length buffer" by (rule n)
    show "let src = take 3 buffer;
               first = hd (sort_key time src);
               lst = last (sort_key time src);
               bodyHigh = max (open_c m) (close m);
               bodyLow = min (open_c m) (close m);
               bodyRange = bodyHigh - bodyLow;
               priceLevel = (open_c m + close m) / 2;
               maxExt = (if bodyRange > 0 then min (bodyRange * 0.20) (priceLevel * 0.005)
                         else priceLevel * 0.001)
           in open_c m = open_c first
            \<and> close m = close lst
            \<and> time m = time first
            \<and> high m = min (Max (high ` set src)) (bodyHigh + maxExt)
            \<and> low m = max (Min (low ` set src)) (bodyLow - maxExt)
            \<and> (sorted (map time src) \<longrightarrow> first = buffer ! 0 \<and> lst = buffer ! 2)"
      unfolding Let_def
    proof (intro conjI)
      show "open_c m = open_c (hd (sort_key time ?src))" by (rule m(2))
      show "close m = close (last (sort_key time ?src))" by (rule m(3))
      show "time m = time (hd (sort_key time ?src))" by (rule m(4))
      show "high m = min (Max (high ` set ?src))
         (max (open_c m) (close m) +
          (if 0 < max (open_c m) (close m) - min (open_c m) (close m)
           then min ((max (open_c m) (close m) - min (open_c m) (close m)) * 0.20)
                 ((open_c m + close m) / 2 * 0.005)
           else (open_c m + close m) / 2 * 0.001))"
        using m(5) unfolding maxWickExtension_def .
      show "low m = max (Min (low ` set ?src))
         (min (open_c m) (close m) -
          (if 0 < max (open_c m) (close m) - min (open_c m) (close m)
           then min ((max (open_c m) (close m) - min (open_c m) (close m)) * 0.20)
                 ((open_c m + close m) / 2 * 0.005)
           else (open_c m + close m) / 2 * 0.001))"
        using m(6) unfolding maxWickExtension_def .
      show "sorted (map time ?src) \<longrightarrow>
        hd (sort_key time ?src) = buffer ! 0 \<and> last (sort_key time ?src) = buffer ! 2"
        by (rule s)
    qed
  qed
qed

lemma take3_thirty: "take 3 thirtyCandles = extremeCandles"
  by (simp add: thirtyCandles_def extremeCandles_def)

theorem compaction_merges_oldest_three_witness:
  "30 \<le> length thirtyCandles
   \<and> performCandleAggregation thirtyCandles =
       Inr (\<lparr> open_c = 1.0, high = 1.035075, low = 0.994925, close = 1.03, time = 0,
               volume = Some 0 \<rparr> # drop 3 thirtyCandles)
   \<and> Max (high ` set (take 3 thirtyCandles)) = 2.5
   \<and> Min (low ` set (take 3 thirtyCandles)) = 0.1"
proof -
  have h: "30 \<le> length thirtyCandles"
    by (simp add: thirtyCandles_def extremeCandles_def)
  from compaction_merges_oldest_three [of thirtyCandles] h
  obtain merged where m: "performCandleAggregation thirtyCandles = Inr (merged # drop 3 thirtyCandles)"
    by blast
  from aggregate_extreme have "performCandleAggregation thirtyCandles = Inr (\<lparr> open_c = 1.0, high = 1.035075, low = 0.994925, close = 1.03, time = 0,
               volume = Some 0 \<rparr> # drop 3 thirtyCandles)"
    using h by (simp add: performCandleAggregation_def take3_thirty)
  moreover have "Max (high ` set (take 3 thirtyCandles)) = 2.5" "Min (low ` set (take 3 thirtyCandles)) = 0.1"
    by (simp_all add: take3_thirty extremeCandles_def)
  ultimately show ?thesis using h m by simp
qed

section \<open>C4: the price stepper\<close>

lemma generatePriceMovement_fst:
  "fst (generatePriceMovement previous volatility g) = max 0.01 (previous + momentumOf volatility g)"
  by (simp add: generatePriceMovement_def Math_random_def momentumOf_def trendOf_def
      spikeOf_def noiseOf_def Let_def split_def numeral_2_eq_2 numeral_3_eq_3)

lemma generatePriceMovement_floor: "0.01 \<le> fst (generatePriceMovement previous volatility g)"
  by (simp add: generatePriceMovement_fst)

lemma priceSteps_floor: "p \<in> set (priceSteps n previous g) \<Longrightarrow> 0.01 \<le> p"
proof (induction n arbitrary: previous g)
  case 0
  then show ?case by simp
next
  case (Suc n)
  obtain p' g' where pg: "generatePriceMovement previous 0.08 g = (p', g')"
    by (cases "generatePriceMovement previous 0.08 g")
  have "0.01 \<le> p'" using generatePriceMovement_floor [of previous "0.08" g] pg by simp
  with Suc pg show ?case by auto
qed

text \<open>
  Claim C4. For every previous value and every stream of random draws,
  \<^verbatim>\<open>generatePriceMovement\<close> with the default volatility 0.08 returns
  \<open>max 0.01 (previous + momentum)\<close>, where \<open>momentum = trend * volatility * 0.8 + noise + spike\<close>,
  \<open>trend = (rand - 0.5) * 3\<close>, \<open>spike\<close> is \<open>(rand - 0.5) * 0.2\<close> when its test draw is
  below 0.15 and 0 otherwise, and \<open>noise = (rand - 0.5) * volatility * 1.5\<close>, the draws
  taken in this order. Every output is at least 0.01, hence never zero or negative, also
  along a run of steps.
\<close>

theorem generatePriceMovement_formula:
  "fst (generatePriceMovement previous 0.08 g) = max 0.01 (previous + momentumOf 0.08 g)
   \<and> momentumOf 0.08 g = trendOf g * 0.08 * 0.8 + noiseOf 0.08 g + spikeOf g
   \<and> trendOf g = (g 0 - 0.5) * 3
   \<and> spikeOf g = (if g 1 < 0.15 then (g 2 - 0.5) * 0.2 else 0)
   \<and> noiseOf 0.08 g = ((if g 1 < 0.15 then g 3 else g 2) - 0.5) * 0.08 * 1.5
   \<and> 0.01 \<le> fst (generatePriceMovement previous 0.08 g)
   \<and> 0 < fst (generatePriceMovement previous 0.08 g)
   \<and> (\<forall>p \<in> set (priceSteps n previous g). 0.01 \<le> p)"
proof (intro conjI)
  show "fst (generatePriceMovement previous 0.08 g) = max 0.01 (previous + momentumOf 0.08 g)"
    by (rule generatePriceMovement_fst)
  show "0 < fst (generatePriceMovement previous 0.08 g)"
    using generatePriceMovement_floor [of previous "0.08" g] by simp
  show "\<forall>p \<in> set (priceSteps n previous g). 0.01 \<le> p"
    using priceSteps_floor by blast
  show "0.01 \<le> fst (generatePriceMovement previous 0.08 g)"
    by (rule generatePriceMovement_floor)
qed (simp_all add: momentumOf_def trendOf_def spikeOf_def noiseOf_def)

lemma gpm_half: "generatePriceMovement 1 0.08 (\<lambda>n. 1/2) = (1, \<lambda>n. 1/2)"
  by (simp add: generatePriceMovement_def Math_random_def Let_def)

theorem generatePriceMovement_formula_witness:
  "priceSteps 2 1 (\<lambda>n. 1/2) = [1, 1]
   \<and> 0.01 \<le> hd (priceSteps 2 1 (\<lambda>n. 1/2))
   \<and> fst (generatePriceMovement 0 0.08 (\<lambda>n. 0)) = 0.01"
proof -
  have "priceSteps 2 1 (\<lambda>n. 1/2) = [1, 1]"
    using gpm_half by (simp add: numeral_2_eq_2)
  moreover have "fst (generatePriceMovement 0 0.08 (\<lambda>n. 0)) = 0.01"
    by (simp add: generatePriceMovement_def Math_random_def Let_def)
  ultimately show ?thesis
    using generatePriceMovement_formula [of 1 "\<lambda>n. 1/2" 2] by simp
qed

section \<open>C2: the crash point generator\<close>

lemma generateCrashPoint_range:
  assumes "unitRng g"
  shows "0.01 \<le> fst (generateCrashPoint g) \<and> fst (generateCrashPoint g) \<le> 25"
proof -
  from assms have b: "0 \<le> g 2" "g 2 < 1" by (auto simp: unitRng_def)
  show ?thesis
    using b by (simp add: generateCrashPoint_def Math_random_def Let_def numeral_2_eq_2)
qed

lemma generateCrashPoint_guide_buckets:
  assumes "unitRng g"
  shows "fst (generateCrashPoint_guide g) =
          (if g 0 < 0.30 then
             (if g 1 < 0.10 then 0.01 + g 2 * (0.20 - 0.01)
              else if g 1 < 0.30 then 0.20 + g 2 * (0.50 - 0.20)
              else 0.50 + g 2 * (0.99 - 0.50))
           else
             (if g 1 < 0.40 then 1.01 + g 2 * (2.00 - 1.01)
              else if g 1 < 0.70 then 2.00 + g 2 * (5.00 - 2.00)
              else if g 1 < 0.90 then 5.00 + g 2 * (10.00 - 5.00)
              else 10.00 + g 2 * (25.00 - 10.00)))"
    and "0.01 \<le> fst (generateCrashPoint_guide g)" and "fst (generateCrashPoint_guide g) \<le> 25"
    and "g 0 < 0.30 \<Longrightarrow> fst (generateCrashPoint_guide g) < 1"
    and "\<not> g 0 < 0.30 \<Longrightarrow> 1 < fst (generateCrashPoint_guide g)"
proof -
  from assms have b: "0 \<le> g 2" "g 2 < 1" by (auto simp: unitRng_def)
  show "fst (generateCrashPoint_guide g) =
          (if g 0 < 0.30 then
             (if g 1 < 0.10 then 0.01 + g 2 * (0.20 - 0.01)
              else if g 1 < 0.30 then 0.20 + g 2 * (0.50 - 0.20)
              else 0.50 + g 2 * (0.99 - 0.50))
           else
             (if g 1 < 0.40 then 1.01 + g 2 * (2.00 - 1.01)
              else if g 1 < 0.70 then 2.00 + g 2 * (5.00 - 2.00)
              else if g 1 < 0.90 then 5.00 + g 2 * (10.00 - 5.00)
              else 10.00 + g 2 * (25.00 - 10.00)))"
    by (simp add: generateCrashPoint_guide_def Math_random_def Let_def numeral_2_eq_2)
  show "0.01 \<le> fst (generateCrashPoint_guide g)" "fst (generateCrashPoint_guide g) \<le> 25"
    using b by (simp_all add: generateCrashPoint_guide_def Math_random_def Let_def numeral_2_eq_2)
  show "g 0 < 0.30 \<Longrightarrow> fst (generateCrashPoint_guide g) < 1"
    using b by (simp add: generateCrashPoint_guide_def Math_random_def Let_def numeral_2_eq_2)
  show "\<not> g 0 < 0.30 \<Longrightarrow> 1 < fst (generateCrashPoint_guide g)"
    using b by (simp add: generateCrashPoint_guide_def Math_random_def Let_def numeral_2_eq_2)
qed

text \<open>
  Claim C2 says that a first draw below 0.30 gives a value below 1 and any other first
  draw a value above 1. \<^verbatim>\<open>generateCrashPoint\<close> of CandlestickChart.tsx compares the
  first draw with 0.8 (its comment: "TEMPORARY for testing (Original: 0.3)"): on the
  stream of draws that are all 0.5 it returns 0.745, a value below 1, where the claimed
  algorithm, which is the one of the implementation guide, returns 3.5.
\<close>

theorem generateCrashPoint_threshold_is_080:
  "fst (generateCrashPoint (\<lambda>n. 1/2)) = 0.745
   \<and> fst (generateCrashPoint_guide (\<lambda>n. 1/2)) = 3.5"
  by (simp add: generateCrashPoint_def generateCrashPoint_guide_def Math_random_def Let_def)

section \<open>C7: the render interpolation\<close>

lemma interpolate_snap: "\<bar>target - d\<bar> < 0.0001 \<Longrightarrow> interpolate target d = target"
  by (simp add: interpolate_def)

lemma interpolate_far:
  "\<not> \<bar>target - d\<bar> < 0.0001 \<Longrightarrow> interpolate target d = d + (target - d) * 0.15"
  by (simp add: interpolate_def INTERPOLATION_SPEED_def)

lemma interpolate_fixed: "interpolate target target = target"
  by (simp add: interpolate_def)

lemma interpolate_below:
  assumes "d \<le> target"
  shows "d \<le> interpolate target d \<and> interpolate target d \<le> target"
proof (cases "\<bar>target - d\<bar> < 0.0001")
  case True
  with assms show ?thesis by (simp add: interpolate_snap)
next
  case False
  then have "interpolate target d = d + (target - d) * 0.15" by (rule interpolate_far)
  with assms show ?thesis by (simp add: field_simps)
qed

lemma interpolate_above:
  assumes "target \<le> d"
  shows "target \<le> interpolate target d \<and> interpolate target d \<le> d"
proof (cases "\<bar>target - d\<bar> < 0.0001")
  case True
  with assms show ?thesis by (simp add: interpolate_snap)
next
  case False
  then have "interpolate target d = d + (target - d) * 0.15" by (rule interpolate_far)
  with assms show ?thesis by (simp add: field_simps)
qed

lemma interpolate_residual:
  assumes "\<not> \<bar>target - d\<bar> < 0.0001"
  shows "\<bar>target - interpolate target d\<bar> = 0.85 * \<bar>target - d\<bar>"
proof -
  have e: "interpolate target d = d + (target - d) * 0.15"
    using assms by (rule interpolate_far)
  have "target - interpolate target d = 0.85 * (target - d)"
    unfolding e by (simp add: field_simps)
  then have "\<bar>target - interpolate target d\<bar> = \<bar>0.85 * (target - d)\<bar>"
    by (simp only:)
  also have "\<dots> = \<bar>0.85\<bar> * \<bar>target - d\<bar>"
    by (rule abs_mult)
  also have "\<bar>0.85 :: real\<bar> = 0.85"
    by simp
  finally show ?thesis .
qed

lemma interpolate_closer: "\<bar>target - interpolate target d\<bar> \<le> \<bar>target - d\<bar>"
proof (cases "\<bar>target - d\<bar> < 0.0001")
  case True
  then show ?thesis by (simp add: interpolate_snap)
next
  case False
  then show ?thesis by (simp add: interpolate_residual)
qed

lemma interpolate_strictly_closer:
  assumes "d \<noteq> target"
  shows "\<bar>target - interpolate target d\<bar> < \<bar>target - d\<bar>"
proof (cases "\<bar>target - d\<bar> < 0.0001")
  case True
  with assms show ?thesis by (simp add: interpolate_snap)
next
  case False
  with assms show ?thesis by (simp add: interpolate_residual)
qed

lemma interpolate_nonneg: "0 \<le> d \<Longrightarrow> 0 \<le> target \<Longrightarrow> 0 \<le> interpolate target d"
  using interpolate_below [of d target] interpolate_above [of target d]
  by (cases "d \<le> target") auto

lemma interpolateN_Suc: "interpolateN (Suc n) target d = interpolate target (interpolateN n target d)"
  by (induction n arbitrary: d) simp_all

lemma interpolateN_nonneg: "0 \<le> d \<Longrightarrow> 0 \<le> target \<Longrightarrow> 0 \<le> interpolateN n target d"
  by (induction n arbitrary: d) (simp_all add: interpolate_nonneg)

lemma interpolateN_fixed: "interpolateN n target target = target"
  by (induction n) (simp_all add: interpolate_fixed)

lemma interpolateN_add:
  "interpolateN (m + n) target d = interpolateN n target (interpolateN m target d)"
  by (induction m arbitrary: d) simp_all

lemma interpolateN_progress:
  "(\<exists>j\<le>k. interpolateN j target d = target)
     \<or> \<bar>target - interpolateN k target d\<bar> = 0.85 ^ k * \<bar>target - d\<bar>"
proof (induction k)
  case 0
  show ?case by simp
next
  case (Suc k)
  show ?case
  proof (cases "\<exists>j\<le>k. interpolateN j target d = target")
    case True
    then show ?thesis using le_Suc_eq by blast
  next
    case False
    with Suc have r: "\<bar>target - interpolateN k target d\<bar> = 0.85 ^ k * \<bar>target - d\<bar>" by blast
    show ?thesis
    proof (cases "\<bar>target - interpolateN k target d\<bar> < 0.0001")
      case True
      then have "interpolateN (Suc k) target d = target"
        by (simp only: interpolateN_Suc interpolate_snap)
      then show ?thesis by blast
    next
      case False
      then have "\<bar>target - interpolateN (Suc k) target d\<bar> = 0.85 * \<bar>target - interpolateN k target d\<bar>"
        unfolding interpolateN_Suc by (rule interpolate_residual)
      with r show ?thesis by simp
    qed
  qed
qed

lemma interpolateN_reaches: "\<exists>n. interpolateN n target d = target"
proof (cases "d = target")
  case True
  then have "interpolateN 0 target d = target" by simp
  then show ?thesis by blast
next
  case False
  then have pos: "0 < \<bar>target - d\<bar>" by simp
  have "\<exists>k. (0.85::real) ^ k < 0.0001 / \<bar>target - d\<bar>"
    using pos by (intro real_arch_pow_inv) simp_all
  then obtain k where k: "(0.85::real) ^ k < 0.0001 / \<bar>target - d\<bar>" by blast
  then have small: "0.85 ^ k * \<bar>target - d\<bar> < 0.0001"
    using pos by (simp add: pos_less_divide_eq)
  from interpolateN_progress [of k target d] show ?thesis
  proof
    assume "\<exists>j\<le>k. interpolateN j target d = target"
    then show ?thesis by blast
  next
    assume "\<bar>target - interpolateN k target d\<bar> = 0.85 ^ k * \<bar>target - d\<bar>"
    with small have "\<bar>target - interpolateN k target d\<bar> < 0.0001" by simp
    then have "interpolateN (Suc k) target d = target"
      by (simp only: interpolateN_Suc interpolate_snap)
    then show ?thesis by blast
  qed
qed

text \<open>
  Claim C7. The render loop's update with factor 0.15: a call whose residual
  \<open>\<bar>target - displayed\<bar>\<close> is not below 0.0001 returns
  \<open>displayed + (target - displayed) * 0.15\<close>, which leaves 0.85 of the residual; from a
  displayed value of 1.0 and a target of 2.0 one call gives 1.15. Each call leaves the
  displayed value on its side of the target and no farther from it (strictly nearer
  unless it is the target already), so the iterates approach the target monotonically; a
  residual below 0.0001 makes the call return the target itself, and some number of calls
  does reach the target exactly. From a non-negative start, against a non-negative
  target, no iterate is negative.
\<close>

theorem render_interpolation:
  "interpolate 2 1 = 1.15
   \<and> (d \<le> target \<longrightarrow> d \<le> interpolate target d \<and> interpolate target d \<le> target)
   \<and> (target \<le> d \<longrightarrow> target \<le> interpolate target d \<and> interpolate target d \<le> d)
   \<and> \<bar>target - interpolate target d\<bar> \<le> \<bar>target - d\<bar>
   \<and> (d \<noteq> target \<longrightarrow> \<bar>target - interpolate target d\<bar> < \<bar>target - d\<bar>)
   \<and> (\<bar>target - d\<bar> < 0.0001 \<longrightarrow> interpolate target d = target)
   \<and> (\<not> \<bar>target - d\<bar> < 0.0001 \<longrightarrow> interpolate target d = d + (target - d) * 0.15)
   \<and> (\<not> \<bar>target - d\<bar> < 0.0001 \<longrightarrow>
        \<bar>target - interpolate target d\<bar> = 0.85 * \<bar>target - d\<bar>)
   \<and> interpolateN 0 target d = d
   \<and> interpolateN (Suc n) target d = interpolate target (interpolateN n target d)
   \<and> (\<exists>k. interpolateN k target d = target)
   \<and> (0 \<le> d \<and> 0 \<le> target \<longrightarrow> 0 \<le> interpolateN n target d)
   \<and> displayPrice (renderFrame s) = interpolate (targetPrice s) (displayPrice s)"
proof (intro conjI impI)
  show "interpolate 2 1 = 1.15" by (simp add: interpolate_def INTERPOLATION_SPEED_def)
  show "\<exists>k. interpolateN k target d = target" by (rule interpolateN_reaches)
  show "interpolateN (Suc n) target d = interpolate target (interpolateN n target d)"
    by (rule interpolateN_Suc)
  show "\<bar>target - interpolate target d\<bar> \<le> \<bar>target - d\<bar>" by (rule interpolate_closer)
  show "displayPrice (renderFrame s) = interpolate (targetPrice s) (displayPrice s)"
    by (simp add: renderFrame_def)
  show "interpolate target d = d + (target - d) * 0.15" if "\<not> \<bar>target - d\<bar> < 0.0001"
    using that by (rule interpolate_far)
  show "\<bar>target - interpolate target d\<bar> = 0.85 * \<bar>target - d\<bar>"
    if "\<not> \<bar>target - d\<bar> < 0.0001"
    using that by (rule interpolate_residual)
  show "interpolateN 0 target d = d" by simp
qed (simp_all add: interpolate_below interpolate_above interpolate_strictly_closer
      interpolate_snap interpolateN_nonneg)

theorem render_interpolation_witness:
  "(1::real) \<le> 2 \<and> interpolate 2 1 = 1.15 \<and> (1.15::real) \<le> 2
   \<and> \<bar>2 - 1.99995\<bar> < (0.0001::real) \<and> interpolate 2 1.99995 = 2
   \<and> \<not> \<bar>10 - 1\<bar> < (0.0001::real) \<and> interpolate 10 1 = 2.35
   \<and> \<bar>10 - interpolate 10 1\<bar> = 7.65
   \<and> (2::real) \<le> 3 \<and> interpolate 2 3 = 2.85 \<and> (2::real) \<le> 2.85 \<and> (2.85::real) \<le> 3
   \<and> (0::real) \<le> 1 \<and> 0 \<le> interpolateN 2 2 1 \<and> interpolateN 2 2 1 = 1.2775"
proof -
  have "interpolate 2 1.99995 = 2"
    using render_interpolation [of "1.99995" 2 0 "mounted (\<lambda>n. 0)"] by simp
  moreover have far: "interpolate 10 1 = 2.35"
    using render_interpolation [of 1 10 0 "mounted (\<lambda>n. 0)"] by simp
  moreover have "\<bar>10 - interpolate 10 1\<bar> = 7.65"
    unfolding far by simp
  moreover have "interpolate 2 3 = 2.85"
    using render_interpolation [of 3 2 0 "mounted (\<lambda>n. 0)"] by simp
  moreover have "0 \<le> interpolateN 2 2 1"
    using render_interpolation [of 1 2 2 "mounted (\<lambda>n. 0)"] by simp
  moreover have "interpolateN 2 2 1 = 1.2775"
    by (simp add: numeral_2_eq_2 interpolate_def INTERPOLATION_SPEED_def)
  moreover have "interpolate 2 1 = 1.15"
    using render_interpolation [of 1 2 2 "mounted (\<lambda>n. 0)"] by simp
  ultimately show ?thesis by simp
qed

section \<open>The chart never grows beyond its cap\<close>

lemma performCandleAggregation_short:
  "length buffer < 30 \<Longrightarrow> performCandleAggregation buffer = Inr buffer"
  by (simp add: performCandleAggregation_def)

lemma performCandleAggregation_long:
  assumes "30 \<le> length buffer"
  shows "\<exists>merged. performCandleAggregation buffer = Inr (merged # drop 3 buffer)
           \<and> aggregateCandles (take 3 buffer) = Inr merged"
proof -
  from assms have "2 \<le> length (take 3 buffer)" by simp
  then obtain m where "aggregateCandles (take 3 buffer) = Inr m"
    using aggregateCandles_fields by blast
  with assms show ?thesis by (simp add: performCandleAggregation_def Let_def)
qed

lemma performCandleAggregation_total:
  "\<exists>ys. performCandleAggregation buffer = Inr ys
        \<and> (if length buffer < 30 then ys = buffer else length ys + 2 = length buffer)"
proof (cases "length buffer < 30")
  case True
  then show ?thesis by (simp add: performCandleAggregation_short)
next
  case False
  then have "30 \<le> length buffer" by simp
  from performCandleAggregation_long [OF this] obtain m where
    "performCandleAggregation buffer = Inr (m # drop 3 buffer)" by blast
  with False show ?thesis by auto
qed

lemma performCandleAggregation_cap:
  assumes "length buffer \<le> 30"
  shows "\<exists>ys. performCandleAggregation buffer = Inr ys \<and> length ys \<le> 29"
proof -
  from performCandleAggregation_total [of buffer] obtain ys where
    ys: "performCandleAggregation buffer = Inr ys"
        "if length buffer < 30 then ys = buffer else length ys + 2 = length buffer"
    by blast
  have "length ys \<le> 29"
  proof (cases "length buffer < 30")
    case True
    with ys(2) show ?thesis by simp
  next
    case False
    with ys(2) assms show ?thesis by simp
  qed
  with ys(1) show ?thesis by blast
qed

lemma tickChartData_cap:
  assumes "length prev \<le> 29" "prev \<noteq> []"
  shows "\<exists>cd g'. tickChartData tm now v g prev = Inr (cd, g') \<and> length cd \<le> 29"
proof (cases "now - time (prev ! (length prev - 1)) \<ge> (if tm then 500 else 3000)")
  case True
  obtain vol g' where vg: "generateVolume 1000000 0.3 g = (vol, g')"
    by (cases "generateVolume 1000000 0.3 g")
  let ?updated = "butlast prev @ [updatedLastCandle (prev ! (length prev - 1)) v,
        \<lparr> open_c = v, high = v, low = v, close = v, time = now, volume = Some vol \<rparr>]"
  have "length ?updated \<le> 30" using assms by simp
  from performCandleAggregation_cap [OF this] obtain ys where
    ys: "performCandleAggregation ?updated = Inr ys" "length ys \<le> 29" by blast
  have "tickChartData tm now v g prev = Inr (slice_last 100 ys, g')"
    using True assms(2) vg ys(1) by (simp add: tickChartData_def Let_def)
  moreover have "length (slice_last 100 ys) \<le> 29" using ys(2) by (simp add: slice_last_def)
  ultimately show ?thesis by blast
next
  case False
  then have "tickChartData tm now v g prev
      = Inr (butlast prev @ [updatedLastCandle (prev ! (length prev - 1)) v], g)"
    using assms(2) by (simp add: tickChartData_def Let_def)
  moreover have "length (butlast prev @ [updatedLastCandle (prev ! (length prev - 1)) v]) \<le> 29"
    using assms by (cases prev) simp_all
  ultimately show ?thesis by blast
qed

lemma crashChartData_cap:
  assumes "length prev \<le> 29"
  shows "\<exists>cd g' k'. crashChartData c g k prev = Inr (cd, g', k') \<and> length cd \<le> 29"
proof -
  obtain f g1 k1 where f: "finalizedCurrentCandle c g k = (f, g1, k1)"
    by (cases "finalizedCurrentCandle c g k")
  obtain x g2 k2 where x: "crashCandle c g1 k1 = (x, g2, k2)"
    by (cases "crashCandle c g1 k1")
  have "length (butlast prev @ [f, x]) \<le> 30" using assms by simp
  from performCandleAggregation_cap [OF this] obtain ys where
    ys: "performCandleAggregation (butlast prev @ [f, x]) = Inr ys" "length ys \<le> 29"
    by blast
  have "crashChartData c g k prev = Inr (ys, g2, k2)"
    using f x ys(1) by (simp add: crashChartData_def)
  with ys(2) show ?thesis by blast
qed


lemma chartData_updateGameState [simp]: "chartData (updateGameState f s) = chartData s"
  by (simp add: updateGameState_def Let_def)

lemma intervals_updateGameState [simp]: "intervals (updateGameState f s) = intervals s"
  by (simp add: updateGameState_def Let_def)

lemma rnd_updateGameState [simp]: "rnd (updateGameState f s) = rnd s"
  by (simp add: updateGameState_def Let_def)

lemma clk_updateGameState [simp]: "clk (updateGameState f s) = clk s"
  by (simp add: updateGameState_def Let_def)

lemma candleIntervalRef_updateGameState [simp]:
  "candleIntervalRef (updateGameState f s) = candleIntervalRef s"
  by (simp add: updateGameState_def Let_def)

lemma nextId_updateGameState [simp]: "nextId (updateGameState f s) = nextId s"
  by (simp add: updateGameState_def Let_def)

lemma firstCandleTimeouts_updateGameState [simp]:
  "firstCandleTimeouts (updateGameState f s) = firstCandleTimeouts s"
  by (simp add: updateGameState_def Let_def)

lemma gameState_updateGameState [simp]: "gameState (updateGameState f s) = f (gameState s)"
  by (simp add: updateGameState_def Let_def)

lemma bettingSync_updateGameState [simp]:
  "bettingSync (updateGameState f s) = bettingSync s @
     [\<lparr> isGameActive = isActive (f (gameState s)), currentMultiplier = multiplier (f (gameState s)),
        crashPoint = crashPoint_gs (f (gameState s)) \<rparr>]"
  by (simp add: updateGameState_def Let_def)

text \<open>Clearing the interval of the reference, as the crash and the start of a game do.\<close>

lemma clearRef_fields [simp]:
  "chartData (case r of None \<Rightarrow> s
               | Some i \<Rightarrow> (clearInterval i s)\<lparr> candleIntervalRef := None \<rparr>) = chartData s"
  "rnd (case r of None \<Rightarrow> s
               | Some i \<Rightarrow> (clearInterval i s)\<lparr> candleIntervalRef := None \<rparr>) = rnd s"
  "clk (case r of None \<Rightarrow> s
               | Some i \<Rightarrow> (clearInterval i s)\<lparr> candleIntervalRef := None \<rparr>) = clk s"
  "gameState (case r of None \<Rightarrow> s
               | Some i \<Rightarrow> (clearInterval i s)\<lparr> candleIntervalRef := None \<rparr>) = gameState s"
  "bettingSync (case r of None \<Rightarrow> s
               | Some i \<Rightarrow> (clearInterval i s)\<lparr> candleIntervalRef := None \<rparr>) = bettingSync s"
  "nextId (case r of None \<Rightarrow> s
               | Some i \<Rightarrow> (clearInterval i s)\<lparr> candleIntervalRef := None \<rparr>) = nextId s"
  by (simp_all add: clearInterval_def split: option.splits)

lemma tickChartData_empty: "tickChartData tm now v g [] = Inl TypeError"
  by (simp add: tickChartData_def)

text \<open>What a tick that returns has done to the chart data.\<close>

lemma candleTick_chartData:
  assumes "candleTick c s = Inr (c', s')"
  shows "\<exists>cd g2. tickChartData (testMode c) (fst (Date_now (clk s)))
                  (fst (generatePriceMovement (targetPriceValue c) 0.08 (rnd s)))
                  (snd (generatePriceMovement (targetPriceValue c) 0.08 (rnd s)))
                  (chartData s) = Inr (cd, g2)
           \<and> c' = c\<lparr> targetPriceValue := fst (generatePriceMovement (targetPriceValue c) 0.08 (rnd s)) \<rparr>
           \<and> (chartData s' = cd
                \<or> (\<exists>g3 k3. crashChartData c' g2 (snd (Date_now (clk s))) cd = Inr (chartData s', g3, k3)))"
proof -
  obtain v g1 where vg: "generatePriceMovement (targetPriceValue c) 0.08 (rnd s) = (v, g1)"
    by (cases "generatePriceMovement (targetPriceValue c) 0.08 (rnd s)")
  obtain now k1 where nk: "Date_now (clk s) = (now, k1)" by (cases "Date_now (clk s)")
  show ?thesis
  proof (cases "tickChartData (testMode c) now v g1 (chartData s)")
    case (Inl e)
    with assms vg nk show ?thesis by (simp add: candleTick_def)
  next
    case (Inr r)
    obtain cd g2 where r: "r = (cd, g2)" by (cases r)
    show ?thesis
    proof (cases "(newCrashPoint c < 1.0 \<and> v \<le> newCrashPoint c)
                   \<or> (newCrashPoint c \<ge> 1.0 \<and> v \<ge> newCrashPoint c)")
      case False
      with assms vg nk Inr r show ?thesis
        by (simp add: candleTick_def Let_def) auto
    next
      case True
      show ?thesis
      proof (cases "crashChartData (c\<lparr> targetPriceValue := v \<rparr>) g2 k1 cd")
        case (Inl e)
        with assms vg nk Inr r True show ?thesis
          by (simp add: candleTick_def Let_def)
      next
        case crash: (Inr q)
        obtain cd' g3 k3 where q: "q = (cd', g3, k3)" by (cases q)
        from assms vg nk Inr r True crash q show ?thesis
          by (simp add: candleTick_def Let_def) auto
      qed
    qed
  qed
qed

lemma candleTick_cap:
  assumes "candleTick c s = Inr (c', s')" "length (chartData s) \<le> 29"
  shows "length (chartData s') \<le> 29"
proof -
  from candleTick_chartData [OF assms(1)] obtain cd g2 v g1 now k1 where
    t: "tickChartData (testMode c) now v g1 (chartData s) = Inr (cd, g2)"
    and d: "chartData s' = cd \<or> (\<exists>g3 k3. crashChartData c' g2 k1 cd = Inr (chartData s', g3, k3))"
    by blast
  from t have ne: "chartData s \<noteq> []" using tickChartData_empty by fastforce
  from tickChartData_cap [OF assms(2) ne, of "testMode c" now v g1] t
  have cd: "length cd \<le> 29" by simp
  from d show ?thesis
  proof
    assume "chartData s' = cd"
    with cd show ?thesis by simp
  next
    assume "\<exists>g3 k3. crashChartData c' g2 k1 cd = Inr (chartData s', g3, k3)"
    with crashChartData_cap [OF cd, of c' g2 k1] show ?thesis by auto
  qed
qed

lemma fire_cap:
  assumes "fire i s = Inr s'" "length (chartData s) \<le> 29"
  shows "length (chartData s') \<le> 29"
proof (cases "map_of (intervals s) i")
  case None
  with assms show ?thesis by (simp add: fire_def)
next
  case (Some c)
  show ?thesis
  proof (cases "candleTick c s")
    case (Inl e)
    with assms Some show ?thesis by (simp add: fire_def)
  next
    case (Inr r)
    obtain c' s1 where r: "r = (c', s1)" by (cases r)
    from candleTick_cap [of c s c' s1] Inr r assms(2) have "length (chartData s1) \<le> 29" by simp
    with assms(1) Some Inr r show ?thesis by (auto simp add: fire_def)
  qed
qed

lemma startNewGame_chartData: "chartData (startNewGame tm cap s) = []"
  by (simp add: startNewGame_def Let_def split_def setInterval_def)

lemma firstCandle_chartData: "length (chartData (firstCandle s)) = 1"
  by (simp add: firstCandle_def Let_def split_def)

lemma chartStep_cap:
  assumes "chartStep e s = Inr s'" "length (chartData s) \<le> 29"
  shows "length (chartData s') \<le> 29"
proof (cases e)
  case (StartNewGame tm cap)
  with assms show ?thesis by (auto simp: startNewGame_chartData)
next
  case FirstCandleTimeout
  with assms show ?thesis by (auto simp: firstCandle_chartData split: if_splits)
next
  case (Fire i)
  with assms fire_cap show ?thesis by simp
next
  case FadeOut
  with assms show ?thesis by (auto simp: fadeOut_def)
qed

lemma chartRun_cap:
  "chartRun es s = Inr s' \<Longrightarrow> length (chartData s) \<le> 29 \<Longrightarrow> length (chartData s') \<le> 29"
proof (induction es arbitrary: s)
  case Nil
  then show ?case by simp
next
  case (Cons e es)
  show ?case
  proof (cases "chartStep e s")
    case (Inl err)
    with Cons.prems show ?thesis by simp
  next
    case (Inr s1)
    with Cons.prems chartStep_cap have "length (chartData s1) \<le> 29" by blast
    with Cons.IH [of s1] Cons.prems(1) Inr show ?thesis by simp
  qed
qed

section \<open>Good candles stay good\<close>

lemma goodCandle_flat:
  "0 \<le> v \<Longrightarrow> goodCandle \<lparr> open_c = v, high = v, low = v, close = v, time = t, volume = vol \<rparr>"
  by (simp add: goodCandle_def candleInvariant_def)

lemma candleInvariant_updatedLastCandle:
  "candleInvariant c \<Longrightarrow> candleInvariant (updatedLastCandle c v)"
  by (auto simp add: candleInvariant_def updatedLastCandle_def)

lemma goodCandle_updatedLastCandle:
  "goodCandle c \<Longrightarrow> 0 \<le> v \<Longrightarrow> goodCandle (updatedLastCandle c v)"
  by (auto simp add: goodCandle_def candleInvariant_def updatedLastCandle_def)

lemma goodCandle_collapse:
  "0 \<le> p \<Longrightarrow> goodCandle \<lparr> open_c = p, high = p, low = 0, close = 0, time = t, volume = vol \<rparr>"
  by (simp add: goodCandle_def candleInvariant_def)

lemma maxWickExtension_nonneg:
  "0 \<le> bodyRange \<Longrightarrow> 0 \<le> priceLevel \<Longrightarrow> 0 \<le> maxWickExtension bodyRange priceLevel"
  by (simp add: maxWickExtension_def)

lemma aggregateCandles_good:
  assumes "\<forall>c \<in> set cs. goodCandle c" "aggregateCandles cs = Inr m"
  shows "goodCandle m"
proof (cases "2 \<le> length cs")
  case False
  then have "cs = [] \<or> (\<exists>c. cs = [c])"
    by (cases cs) (auto simp: Suc_le_eq)
  with assms show ?thesis by (auto simp: aggregateCandles_def)
next
  case True
  let ?S = "sort_key time cs"
  let ?bh = "max (open_c m) (close m)"
  let ?bl = "min (open_c m) (close m)"
  let ?ext = "maxWickExtension (?bh - ?bl) ((open_c m + close m) / 2)"
  from aggregateCandles_fields [OF True] assms(2) have
    o: "open_c m = open_c (hd ?S)" and c: "close m = close (last ?S)"
    and h: "high m = min (Max (high ` set cs)) (?bh + ?ext)"
    and l: "low m = max (Min (low ` set cs)) (?bl - ?ext)"
    by auto
  from True have ne: "cs \<noteq> []" by auto
  then have S: "?S \<noteq> []" by (metis length_0_conv length_sort)
  have mem: "hd ?S \<in> set cs" "last ?S \<in> set cs"
    using hd_in_set [OF S] last_in_set [OF S] by simp_all
  with assms(1) have gh: "goodCandle (hd ?S)" and gl: "goodCandle (last ?S)" by blast+
  have H1: "high (hd ?S) \<le> Max (high ` set cs)" and H2: "high (last ?S) \<le> Max (high ` set cs)"
    using mem by simp_all
  have L1: "Min (low ` set cs) \<le> low (hd ?S)" and L2: "Min (low ` set cs) \<le> low (last ?S)"
    using mem by simp_all
  have "Min (low ` set cs) \<in> low ` set cs" using ne by (intro Min_in) simp_all
  then obtain x where "x \<in> set cs" "Min (low ` set cs) = low x" by blast
  with assms(1) have L0: "0 \<le> Min (low ` set cs)" by (auto simp: goodCandle_def)
  from gh gl have b: "low (hd ?S) \<le> open_c (hd ?S)" "open_c (hd ?S) \<le> high (hd ?S)"
     "low (last ?S) \<le> close (last ?S)" "close (last ?S) \<le> high (last ?S)"
     "0 \<le> low (hd ?S)" "0 \<le> low (last ?S)"
    by (auto simp: goodCandle_def candleInvariant_def)
  have bh: "?bh \<le> Max (high ` set cs)" using o c b H1 H2 by auto
  have bl: "Min (low ` set cs) \<le> ?bl" using o c b L1 L2 by auto
  have "0 \<le> open_c m" "0 \<le> close m" using o c b by auto
  then have ext: "0 \<le> ?ext" by (intro maxWickExtension_nonneg) auto
  define H where "H = Max (high ` set cs)"
  define L where "L = Min (low ` set cs)"
  define B where "B = ?bh"
  define A where "A = ?bl"
  define E where "E = ?ext"
  have "high m = min H (B + E)" "B \<le> H" "0 \<le> E"
    using h bh ext by (simp_all only: H_def B_def E_def)
  then have r1: "B \<le> high m" by simp
  have "low m = max L (A - E)" "L \<le> A" "0 \<le> E" "0 \<le> L"
    using l bl ext L0 by (simp_all only: L_def A_def E_def)
  then have r2: "low m \<le> A" "0 \<le> low m" by simp_all
  from r1 r2 show ?thesis
    by (simp only: goodCandle_def candleInvariant_def A_def B_def)
qed

lemma performCandleAggregation_good:
  assumes "\<forall>c \<in> set buffer. goodCandle c" "performCandleAggregation buffer = Inr ys"
  shows "\<forall>c \<in> set ys. goodCandle c"
proof (cases "length buffer < 30")
  case True
  with assms show ?thesis by (simp add: performCandleAggregation_short)
next
  case False
  then have "30 \<le> length buffer" by simp
  from performCandleAggregation_long [OF this] assms(2) obtain m where
    m: "ys = m # drop 3 buffer" "aggregateCandles (take 3 buffer) = Inr m" by auto
  have "\<forall>c \<in> set (take 3 buffer). goodCandle c"
    using assms(1) by (meson in_set_takeD)
  from this m(2) have "goodCandle m" by (rule aggregateCandles_good)
  moreover have "\<forall>c \<in> set (drop 3 buffer). goodCandle c"
    using assms(1) by (meson in_set_dropD)
  ultimately show ?thesis using m(1) by simp
qed

lemma tickChartData_good:
  assumes "\<forall>c \<in> set prev. goodCandle c" "0 \<le> v" "tickChartData tm now v g prev = Inr (cd, g')"
  shows "\<forall>c \<in> set cd. goodCandle c"
proof -
  from assms(3) have ne: "prev \<noteq> []" using tickChartData_empty by fastforce
  then have "prev ! (length prev - 1) \<in> set prev" by simp
  with assms(1,2) have u: "goodCandle (updatedLastCandle (prev ! (length prev - 1)) v)"
    by (simp add: goodCandle_updatedLastCandle)
  have bl: "\<forall>c \<in> set (butlast prev). goodCandle c"
    using assms(1) by (meson in_set_butlastD)
  show ?thesis
  proof (cases "now - time (prev ! (length prev - 1)) \<ge> (if tm then 500 else 3000)")
    case False
    with assms(3) ne have "cd = butlast prev @ [updatedLastCandle (prev ! (length prev - 1)) v]"
      by (simp add: tickChartData_def Let_def)
    with u bl show ?thesis by simp
  next
    case True
    obtain vol g1 where vg: "generateVolume 1000000 0.3 g = (vol, g1)"
      by (cases "generateVolume 1000000 0.3 g")
    let ?updated = "butlast prev @ [updatedLastCandle (prev ! (length prev - 1)) v,
        \<lparr> open_c = v, high = v, low = v, close = v, time = now, volume = Some vol \<rparr>]"
    from performCandleAggregation_total [of ?updated] obtain ys where
      ys: "performCandleAggregation ?updated = Inr ys" by blast
    have "\<forall>c \<in> set ?updated. goodCandle c"
      using u bl assms(2) by (simp add: goodCandle_flat)
    then have g: "\<forall>c \<in> set ys. goodCandle c" using ys by (rule performCandleAggregation_good)
    from assms(3) True ne vg ys have "cd = slice_last 100 ys"
      by (simp add: tickChartData_def Let_def)
    with g show ?thesis by (auto simp: slice_last_def dest: in_set_dropD)
  qed
qed

lemma lastPrice_nonneg:
  assumes "goodClosure c" "0 \<le> targetPriceValue c"
  shows "0 \<le> lastPrice c"
proof (cases "length (chartData_cl c) > 0")
  case False
  with assms show ?thesis by (simp add: lastPrice_def)
next
  case True
  then have "chartData_cl c ! (length (chartData_cl c) - 1) \<in> set (chartData_cl c)" by simp
  with assms(1) have "goodCandle (chartData_cl c ! (length (chartData_cl c) - 1))"
    by (simp add: goodClosure_def)
  then have "0 \<le> close (chartData_cl c ! (length (chartData_cl c) - 1))"
    by (auto simp: goodCandle_def candleInvariant_def)
  with True show ?thesis by (simp add: lastPrice_def)
qed

lemma finalizedCurrentCandle_good:
  assumes "goodClosure c" "0 \<le> targetPriceValue c"
  shows "goodCandle (fst (finalizedCurrentCandle c g k))"
proof (cases "length (chartData_cl c) > 0")
  case False
  with assms(2) show ?thesis
    by (simp add: finalizedCurrentCandle_def Let_def split_def goodCandle_flat)
next
  case True
  then have "chartData_cl c ! (length (chartData_cl c) - 1) \<in> set (chartData_cl c)" by simp
  with assms(1) have "goodCandle (chartData_cl c ! (length (chartData_cl c) - 1))"
    by (simp add: goodClosure_def)
  with True show ?thesis
    by (simp add: finalizedCurrentCandle_def lastPrice_def goodCandle_def candleInvariant_def)
qed

lemma crashCandle_good:
  assumes "goodClosure c" "0 \<le> targetPriceValue c"
  shows "goodCandle (fst (crashCandle c g k))"
  using lastPrice_nonneg [OF assms]
  by (simp add: crashCandle_def Let_def split_def goodCandle_collapse)

lemma crashChartData_good:
  assumes "\<forall>x \<in> set prev. goodCandle x" "goodClosure c" "0 \<le> targetPriceValue c"
    "crashChartData c g k prev = Inr (cd, g', k')"
  shows "\<forall>x \<in> set cd. goodCandle x"
proof -
  obtain f g1 k1 where f: "finalizedCurrentCandle c g k = (f, g1, k1)"
    by (cases "finalizedCurrentCandle c g k")
  obtain x g2 k2 where x: "crashCandle c g1 k1 = (x, g2, k2)"
    by (cases "crashCandle c g1 k1")
  have gf: "goodCandle f" using finalizedCurrentCandle_good [OF assms(2,3), of g k] f by simp
  have gx: "goodCandle x" using crashCandle_good [OF assms(2,3), of g1 k1] x by simp
  have bl: "\<forall>c \<in> set (butlast prev). goodCandle c"
    using assms(1) by (meson in_set_butlastD)
  from performCandleAggregation_total [of "butlast prev @ [f, x]"] obtain ys where
    ys: "performCandleAggregation (butlast prev @ [f, x]) = Inr ys" by blast
  have "\<forall>c \<in> set (butlast prev @ [f, x]). goodCandle c" using gf gx bl by simp
  then have "\<forall>c \<in> set ys. goodCandle c" using ys by (rule performCandleAggregation_good)
  moreover from assms(4) f x ys have "cd = ys" by (simp add: crashChartData_def)
  ultimately show ?thesis by simp
qed

section \<open>The invariant of the chart state\<close>

lemma clearRef_intervals:
  "set (intervals (case candleIntervalRef s of None \<Rightarrow> s
               | Some i \<Rightarrow> (clearInterval i s)\<lparr> candleIntervalRef := None \<rparr>)) \<subseteq> set (intervals s)"
  by (auto simp add: clearInterval_def split: option.splits)

lemma candleTick_intervals:
  assumes "candleTick c s = Inr (c', s')"
  shows "set (intervals s') \<subseteq> set (intervals s)"
proof -
  obtain v g1 where vg: "generatePriceMovement (targetPriceValue c) 0.08 (rnd s) = (v, g1)"
    by (cases "generatePriceMovement (targetPriceValue c) 0.08 (rnd s)")
  obtain now k1 where nk: "Date_now (clk s) = (now, k1)" by (cases "Date_now (clk s)")
  show ?thesis
  proof (cases "tickChartData (testMode c) now v g1 (chartData s)")
    case (Inl e)
    with assms vg nk show ?thesis by (simp add: candleTick_def)
  next
    case (Inr r)
    obtain cd g2 where r: "r = (cd, g2)" by (cases r)
    let ?s1 = "s\<lparr> chartData := cd, rnd := g2, clk := k1 \<rparr>"
    have i1: "intervals ?s1 = intervals s" by simp
    show ?thesis
    proof (cases "(newCrashPoint c < 1.0 \<and> v \<le> newCrashPoint c)
                   \<or> (newCrashPoint c \<ge> 1.0 \<and> v \<ge> newCrashPoint c)")
      case False
      with assms vg nk Inr r show ?thesis
        by (simp add: candleTick_def Let_def) auto
    next
      case True
      let ?s2 = "case candleIntervalRef ?s1 of None \<Rightarrow> ?s1
                 | Some i \<Rightarrow> (clearInterval i ?s1)\<lparr> candleIntervalRef := None \<rparr>"
      have i2: "set (intervals ?s2) \<subseteq> set (intervals s)"
        using clearRef_intervals [of ?s1] i1 by simp
      show ?thesis
      proof (cases "crashChartData (c\<lparr> targetPriceValue := v \<rparr>) g2 k1 cd")
        case (Inl e)
        with assms vg nk Inr r True show ?thesis
          by (simp add: candleTick_def Let_def)
      next
        case crash: (Inr q)
        obtain cd' g3 k3 where q: "q = (cd', g3, k3)" by (cases q)
        from assms vg nk Inr r True crash q
        have "intervals s' = intervals ?s2"
          by (auto simp add: candleTick_def Let_def)
        with i2 show ?thesis by simp
      qed
    qed
  qed
qed

lemma candleTick_invariant:
  assumes "candleTick c s = Inr (c', s')" "chartInvariant s" "goodClosure c"
  shows "chartInvariant s' \<and> goodClosure c'"
proof -
  let ?v = "fst (generatePriceMovement (targetPriceValue c) 0.08 (rnd s))"
  from candleTick_chartData [OF assms(1)] obtain cd g2 where
    t: "tickChartData (testMode c) (fst (Date_now (clk s))) ?v
          (snd (generatePriceMovement (targetPriceValue c) 0.08 (rnd s))) (chartData s) = Inr (cd, g2)"
    and c': "c' = c\<lparr> targetPriceValue := ?v \<rparr>"
    and d: "chartData s' = cd
            \<or> (\<exists>g3 k3. crashChartData c' g2 (snd (Date_now (clk s))) cd = Inr (chartData s', g3, k3))"
    by blast
  have v: "0 \<le> ?v" using generatePriceMovement_floor [of "targetPriceValue c" "0.08" "rnd s"] by simp
  from assms(2) have "\<forall>x \<in> set (chartData s). goodCandle x" by (simp add: chartInvariant_def)
  from tickChartData_good [OF this v t] have cd: "\<forall>x \<in> set cd. goodCandle x" .
  have gc: "goodClosure c'" using assms(3) c' by (simp add: goodClosure_def)
  have tv: "0 \<le> targetPriceValue c'" using v c' by simp
  have chart: "\<forall>x \<in> set (chartData s'). goodCandle x"
    using d
  proof
    assume "chartData s' = cd"
    with cd show ?thesis by simp
  next
    assume "\<exists>g3 k3. crashChartData c' g2 (snd (Date_now (clk s))) cd = Inr (chartData s', g3, k3)"
    then obtain g3 k3 where
      "crashChartData c' g2 (snd (Date_now (clk s))) cd = Inr (chartData s', g3, k3)" by blast
    from crashChartData_good [OF cd gc tv this] show ?thesis .
  qed
  have "\<forall>p \<in> set (intervals s'). goodClosure (snd p)"
    using candleTick_intervals [OF assms(1)] assms(2) by (auto simp: chartInvariant_def)
  with chart gc show ?thesis by (simp add: chartInvariant_def)
qed

lemma fire_invariant:
  assumes "fire i s = Inr s'" "chartInvariant s"
  shows "chartInvariant s'"
proof (cases "map_of (intervals s) i")
  case None
  with assms show ?thesis by (simp add: fire_def)
next
  case (Some c)
  then have "(i, c) \<in> set (intervals s)" by (rule map_of_SomeD)
  with assms(2) have gc: "goodClosure c" by (auto simp: chartInvariant_def)
  show ?thesis
  proof (cases "candleTick c s")
    case (Inl e)
    with assms Some show ?thesis by (simp add: fire_def)
  next
    case (Inr r)
    obtain c' s1 where r: "r = (c', s1)" by (cases r)
    from candleTick_invariant [of c s c' s1] Inr r assms(2) gc
    have inv: "chartInvariant s1" "goodClosure c'" by simp_all
    from assms(1) Some Inr r
    have s': "s' = s1\<lparr> intervals := map (\<lambda>(j, d). if j = i then (j, c') else (j, d)) (intervals s1) \<rparr>"
      by (simp add: fire_def)
    show ?thesis
      using inv unfolding s' chartInvariant_def by auto
  qed
qed

lemma startNewGame_intervals:
  "\<exists>cp. set (intervals (startNewGame tm cap s))
      \<subseteq> set (intervals s) \<union> {(Suc (nextId s),
            \<lparr> newCrashPoint = cp, targetPriceValue = 1.0, testMode = tm, chartData_cl = cap \<rparr>)}"
  by (cases "candleIntervalRef s")
    (auto simp add: startNewGame_def Let_def split_def setInterval_def clearInterval_def)

lemma startNewGame_invariant:
  assumes "chartInvariant s" "\<forall>x \<in> set cap. goodCandle x"
  shows "chartInvariant (startNewGame tm cap s)"
proof -
  from startNewGame_intervals [of tm cap s] obtain cp where
    "set (intervals (startNewGame tm cap s))
      \<subseteq> set (intervals s) \<union> {(Suc (nextId s),
            \<lparr> newCrashPoint = cp, targetPriceValue = 1.0, testMode = tm, chartData_cl = cap \<rparr>)}"
    by blast
  moreover have "goodClosure \<lparr> newCrashPoint = cp, targetPriceValue = 1.0, testMode = tm, chartData_cl = cap \<rparr>"
    using assms(2) by (simp add: goodClosure_def)
  ultimately have "\<forall>p \<in> set (intervals (startNewGame tm cap s)). goodClosure (snd p)"
    using assms(1) by (auto simp: chartInvariant_def)
  then show ?thesis by (simp add: chartInvariant_def startNewGame_chartData)
qed

lemma firstCandle_invariant: "chartInvariant s \<Longrightarrow> chartInvariant (firstCandle s)"
  by (simp add: chartInvariant_def firstCandle_def Let_def split_def goodCandle_flat)

lemma fadeOut_invariant: "chartInvariant s \<Longrightarrow> chartInvariant (fadeOut s)"
  by (auto simp add: chartInvariant_def fadeOut_def dest: in_set_butlastD)

lemma chartMounted_invariant: "chartInvariant (chartMounted g k)"
  by (simp add: chartInvariant_def chartMounted_def)

lemma reachable_invariant: "reachable s \<Longrightarrow> chartInvariant s"
proof (induction rule: reachable.induct)
  case (reachable_mounted g k)
  show ?case by (rule chartMounted_invariant)
next
  case (reachable_start s r tm)
  from reachable_start.IH(2) have "\<forall>x \<in> set (chartData r). goodCandle x"
    by (simp add: chartInvariant_def)
  with reachable_start.IH(1) show ?case by (rule startNewGame_invariant)
next
  case (reachable_first s)
  then show ?case by (simp add: firstCandle_invariant)
next
  case (reachable_fire s i s')
  from reachable_fire.hyps(2) reachable_fire.IH show ?case by (rule fire_invariant)
next
  case (reachable_fade s)
  then show ?case by (simp add: fadeOut_invariant)
qed

text \<open>A run of events whose starts have captured the empty chart of the first render.\<close>

lemma chartStep_reachable:
  assumes "chartStep e s = Inr s'" "reachable s" "capturedBy e = []"
  shows "reachable s'"
proof (cases e)
  case (StartNewGame tm cap)
  have "reachable (startNewGame tm (chartData (chartMounted (\<lambda>n. 0) (\<lambda>n. 0))) s)"
    using assms(2) reachable_mounted by (rule reachable_start)
  then have "reachable (startNewGame tm [] s)" by (simp add: chartMounted_def)
  with assms StartNewGame show ?thesis by auto
next
  case FirstCandleTimeout
  with assms show ?thesis by (auto simp: reachable_first split: if_splits)
next
  case (Fire i)
  with assms reachable_fire show ?thesis by auto
next
  case FadeOut
  with assms show ?thesis by (auto simp: reachable_fade)
qed

lemma chartRun_reachable:
  "chartRun es s = Inr s' \<Longrightarrow> reachable s \<Longrightarrow> \<forall>e \<in> set es. capturedBy e = []
    \<Longrightarrow> reachable s'"
proof (induction es arbitrary: s)
  case Nil
  then show ?case by simp
next
  case (Cons e es)
  show ?case
  proof (cases "chartStep e s")
    case (Inl err)
    with Cons.prems show ?thesis by simp
  next
    case (Inr s1)
    with Cons.prems chartStep_reachable [of e s s1] have "reachable s1" by simp
    with Cons.IH [of s1] Cons.prems Inr show ?thesis by simp
  qed
qed


lemmas chart_eval =
  chartMounted_def startNewGame_def firstCandle_def fire_def candleTick_def
  tickChartData_def crashChartData_def finalizedCurrentCandle_def crashCandle_def lastPrice_def
  performCandleAggregation_def clearInterval_def
  updateGameState_def setInterval_def generateCrashPoint_def
  generatePriceMovement_def generateVolume_def Math_random_def Date_now_def Let_def
  updatedLastCandle_def

section \<open>C5: the candle invariant\<close>

text \<open>
  Claim C5. Every candle satisfies \<open>low \<le> min open close\<close> and \<open>high \<ge> max open close\<close>
  at every point of its life. A candle is opened with its four prices equal; folding a
  value into it, which is also how it is closed, keeps the invariant; so does the
  compaction of good candles; the collapse candle of a crash, from a price that is not
  negative down to 0, has it. Together: on every chart that the component reaches from
  mounting, by starting games, putting the first candle, ticking (with closings,
  compactions and crashes) and fading out, every candle satisfies the invariant. The
  prices of this program are never negative (the floor of the stepper is 0.01, the
  collapse candle ends at 0); this is what a good candle adds to the invariant, and what
  the compaction and the collapse candle rely on.
\<close>

theorem candle_invariant_always:
  "candleInvariant \<lparr> open_c = v, high = v, low = v, close = v, time = t, volume = vol \<rparr>
   \<and> (candleInvariant c \<longrightarrow> candleInvariant (updatedLastCandle c v))
   \<and> (reachable s
       \<longrightarrow> (\<forall>c \<in> set (chartData s).
              low c \<le> min (open_c c) (close c) \<and> high c \<ge> max (open_c c) (close c)))
   \<and> ((\<forall>x \<in> set cs. goodCandle x) \<and> aggregateCandles cs = Inr m \<longrightarrow> candleInvariant m)
   \<and> (0 \<le> p \<longrightarrow>
        candleInvariant \<lparr> open_c = p, high = p, low = 0, close = 0, time = t, volume = vol \<rparr>)"
proof (intro conjI impI)
  show "candleInvariant \<lparr> open_c = v, high = v, low = v, close = v, time = t, volume = vol \<rparr>"
    by (simp add: candleInvariant_def)
  show "candleInvariant (updatedLastCandle c v)" if "candleInvariant c"
    using that by (rule candleInvariant_updatedLastCandle)
  show "\<forall>c \<in> set (chartData s).
          low c \<le> min (open_c c) (close c) \<and> high c \<ge> max (open_c c) (close c)"
    if "reachable s"
  proof -
    from that have "chartInvariant s" by (rule reachable_invariant)
    then show ?thesis by (simp add: chartInvariant_def goodCandle_def candleInvariant_def)
  qed
  show "candleInvariant m" if "(\<forall>x \<in> set cs. goodCandle x) \<and> aggregateCandles cs = Inr m"
    using that aggregateCandles_good [of cs m] by (simp add: goodCandle_def)
  show "candleInvariant \<lparr> open_c = p, high = p, low = 0, close = 0, time = t, volume = vol \<rparr>"
    if "0 \<le> p"
    using that by (simp add: candleInvariant_def)
qed

text \<open>
  A round played to its crash: with every draw 0 the crash point is 0.01, and the fourth
  tick reaches it.
\<close>

lemma crash_run:
  "\<exists>s. chartRun [StartNewGame False [], FirstCandleTimeout, Fire 2, Fire 2, Fire 2, Fire 2]
          (chartMounted (\<lambda>n. 0) (\<lambda>n. 0)) = Inr s
     \<and> map (\<lambda>c. (open_c c, high c, low c, close c)) (chartData s)
         = [(0.01, 0.01, 0.01, 0.01), (0.01, 0.01, 0, 0)]
     \<and> gameState s = \<lparr> isActive = False, isPreparing = False, multiplier = 0.01,
                        hasCrashed = True, crashPoint_gs = 0.01, timeElapsed = 0,
                        countdown_gs = 0 \<rparr>
     \<and> last (bettingSync s) = \<lparr> isGameActive = False, currentMultiplier = 0.01, crashPoint = 0.01 \<rparr>
     \<and> intervals s = []"
  by (simp add: chart_eval)


theorem candle_invariant_always_witness:
  "(\<exists>s. chartRun [StartNewGame False [], FirstCandleTimeout, Fire 2, Fire 2, Fire 2, Fire 2]
          (chartMounted (\<lambda>n. 0) (\<lambda>n. 0)) = Inr s
     \<and> reachable s
     \<and> map (\<lambda>c. (open_c c, high c, low c, close c)) (chartData s)
         = [(0.01, 0.01, 0.01, 0.01), (0.01, 0.01, 0, 0)]
     \<and> low (last (chartData s)) \<le> min (open_c (last (chartData s))) (close (last (chartData s)))
     \<and> high (last (chartData s)) \<ge> max (open_c (last (chartData s))) (close (last (chartData s))))
   \<and> candleInvariant (hd extremeCandles)
   \<and> candleInvariant (updatedLastCandle (hd extremeCandles) 1.5)
   \<and> list_all goodCandle extremeCandles
   \<and> candleInvariant \<lparr> open_c = 1.0, high = 1.035075, low = 0.994925, close = 1.03, time = 0,
                          volume = Some 0 \<rparr>
   \<and> (0::real) \<le> 0.01
   \<and> candleInvariant \<lparr> open_c = 0.01, high = 0.01, low = 0, close = 0, time = 100,
                          volume = Some 750000 \<rparr>"
proof -
  let ?es = "[StartNewGame False [], FirstCandleTimeout, Fire 2, Fire 2, Fire 2, Fire 2]"
  let ?m = "\<lparr> open_c = 1.0, high = 1.035075, low = 0.994925, close = 1.03, time = 0,
                          volume = Some (0::real) \<rparr>"
  obtain s where
    r: "chartRun ?es (chartMounted (\<lambda>n. 0) (\<lambda>n. 0)) = Inr s"
    and m: "map (\<lambda>c. (open_c c, high c, low c, close c)) (chartData s)
         = [(0.01, 0.01, 0.01, 0.01), (0.01, 0.01, 0, 0)]"
    using crash_run by (elim exE conjE) (rule that)
  have "\<forall>e \<in> set ?es. capturedBy e = []" by simp
  with r reachable_mounted have h: "reachable s" by (rule chartRun_reachable)
  have i0: "candleInvariant (hd extremeCandles)"
    by (simp add: extremeCandles_def candleInvariant_def)
  have g: "list_all goodCandle extremeCandles"
    by (simp add: extremeCandles_def goodCandle_def candleInvariant_def)
  then have g': "\<forall>x \<in> set extremeCandles. goodCandle x" by (simp add: list_all_iff)
  note th = candle_invariant_always [of "0.01" 100 "Some 750000" "hd extremeCandles" s extremeCandles ?m "0.01"]
  note th' = candle_invariant_always [of "1.5" 0 None "hd extremeCandles" s extremeCandles ?m "0.01"]
  from th h
  have a: "\<forall>c \<in> set (chartData s).
              low c \<le> min (open_c c) (close c) \<and> high c \<ge> max (open_c c) (close c)"
    by simp
  from th' i0 have i1: "candleInvariant (updatedLastCandle (hd extremeCandles) 1.5)" by simp
  from th g' aggregate_extreme have i2: "candleInvariant ?m" by simp
  from th have i3: "candleInvariant \<lparr> open_c = 0.01, high = 0.01, low = 0, close = 0, time = 100,
                          volume = Some 750000 \<rparr>" by simp
  from m have "chartData s \<noteq> []" by auto
  then have "last (chartData s) \<in> set (chartData s)" by simp
  with a have b:
    "low (last (chartData s)) \<le> min (open_c (last (chartData s))) (close (last (chartData s)))
     \<and> high (last (chartData s)) \<ge> max (open_c (last (chartData s))) (close (last (chartData s)))"
    by (rule bspec)
  have e: "\<exists>s. chartRun ?es (chartMounted (\<lambda>n. 0) (\<lambda>n. 0)) = Inr s
     \<and> reachable s
     \<and> map (\<lambda>c. (open_c c, high c, low c, close c)) (chartData s)
         = [(0.01, 0.01, 0.01, 0.01), (0.01, 0.01, 0, 0)]
     \<and> low (last (chartData s)) \<le> min (open_c (last (chartData s))) (close (last (chartData s)))
     \<and> high (last (chartData s)) \<ge> max (open_c (last (chartData s))) (close (last (chartData s)))"
  proof (intro exI [of _ s] conjI)
    show "chartRun ?es (chartMounted (\<lambda>n. 0) (\<lambda>n. 0)) = Inr s" by (rule r)
    show "reachable s" by (rule h)
    show "map (\<lambda>c. (open_c c, high c, low c, close c)) (chartData s)
         = [(0.01, 0.01, 0.01, 0.01), (0.01, 0.01, 0, 0)]" by (rule m)
    show "low (last (chartData s)) \<le> min (open_c (last (chartData s))) (close (last (chartData s)))"
      using b by (rule conjunct1)
    show "high (last (chartData s)) \<ge> max (open_c (last (chartData s))) (close (last (chartData s)))"
      using b by (rule conjunct2)
  qed
  have z: "(0::real) \<le> 0.01" by simp
  from e i0 i1 g i2 z i3 show ?thesis by (intro conjI)
qed

section \<open>C6: the cap of the buffer\<close>

text \<open>
  Claim C6. \<^verbatim>\<open>performCandleAggregation\<close> returns a buffer of fewer than thirty candles
  as it is; on thirty or more it merges the first three once, whatever the length that
  results, and the other candles follow unchanged and in order. Consequently the chart of
  the component never holds more than thirty candles, whatever sequence of games, ticks,
  crashes and fade-outs it goes through.
\<close>

theorem buffer_cap:
  "(length buffer < 30 \<longrightarrow> performCandleAggregation buffer = Inr buffer)
   \<and> (30 \<le> length buffer \<longrightarrow>
        (\<exists>merged. aggregateCandles (take 3 buffer) = Inr merged
           \<and> performCandleAggregation buffer = Inr (merged # drop 3 buffer)))
   \<and> (chartRun es (chartMounted g k) = Inr s \<longrightarrow> length (chartData s) \<le> 30)"
proof (intro conjI impI)
  show "performCandleAggregation buffer = Inr buffer" if "length buffer < 30"
    using that by (rule performCandleAggregation_short)
  show "\<exists>merged. aggregateCandles (take 3 buffer) = Inr merged
           \<and> performCandleAggregation buffer = Inr (merged # drop 3 buffer)"
    if "30 \<le> length buffer"
    using performCandleAggregation_long [OF that] by blast
  show "length (chartData s) \<le> 30" if "chartRun es (chartMounted g k) = Inr s"
  proof -
    have "length (chartData (chartMounted g k)) \<le> 29" by (simp add: chartMounted_def)
    with that have "length (chartData s) \<le> 29" by (rule chartRun_cap)
    then show ?thesis by simp
  qed
qed

theorem buffer_cap_witness:
  "length (take 5 thirtyCandles) < 30
   \<and> performCandleAggregation (take 5 thirtyCandles) = Inr (take 5 thirtyCandles)
   \<and> 30 \<le> length thirtyCandles
   \<and> length (thirtyCandles @ thirtyCandles) = 60
   \<and> (\<exists>merged. performCandleAggregation (thirtyCandles @ thirtyCandles)
                  = Inr (merged # drop 3 (thirtyCandles @ thirtyCandles))
         \<and> length (merged # drop 3 (thirtyCandles @ thirtyCandles)) = 58)
   \<and> (\<exists>s. chartRun [StartNewGame False [], FirstCandleTimeout, Fire 2, Fire 2, Fire 2, Fire 2]
             (chartMounted (\<lambda>n. 0) (\<lambda>n. 0)) = Inr s
          \<and> length (chartData s) = 2 \<and> length (chartData s) \<le> 30)"
proof -
  let ?es = "[StartNewGame False [], FirstCandleTimeout, Fire 2, Fire 2, Fire 2, Fire 2]"
  have l30: "length thirtyCandles = 30" by (simp add: thirtyCandles_def extremeCandles_def)
  then have l5: "length (take 5 thirtyCandles) < 30" by simp
  have l60: "30 \<le> length (thirtyCandles @ thirtyCandles)" using l30 by simp
  obtain s where
    r: "chartRun ?es (chartMounted (\<lambda>n. 0) (\<lambda>n. 0)) = Inr s"
    and m: "map (\<lambda>c. (open_c c, high c, low c, close c)) (chartData s)
         = [(0.01, 0.01, 0.01, 0.01), (0.01, 0.01, 0, 0)]"
    using crash_run by (elim exE conjE) (rule that)
  from m have "length (map (\<lambda>c. (open_c c, high c, low c, close c)) (chartData s)) = 2" by simp
  then have l2: "length (chartData s) = 2" by simp
  have a: "performCandleAggregation (take 5 thirtyCandles) = Inr (take 5 thirtyCandles)"
    using buffer_cap [of "take 5 thirtyCandles" "[]" "\<lambda>n. 0" "\<lambda>n. 0" "chartMounted (\<lambda>n. 0) (\<lambda>n. 0)"] l5 by simp
  have b: "\<exists>merged. performCandleAggregation (thirtyCandles @ thirtyCandles)
                  = Inr (merged # drop 3 (thirtyCandles @ thirtyCandles))
         \<and> length (merged # drop 3 (thirtyCandles @ thirtyCandles)) = 58"
    using buffer_cap [of "thirtyCandles @ thirtyCandles" "[]" "\<lambda>n. 0" "\<lambda>n. 0" "chartMounted (\<lambda>n. 0) (\<lambda>n. 0)"] l60 l30
    by auto
  have c: "length (chartData s) \<le> 30"
    using buffer_cap [of "[]" ?es "\<lambda>n. 0" "\<lambda>n. 0" s] r by simp
  have d: "\<exists>s. chartRun ?es (chartMounted (\<lambda>n. 0) (\<lambda>n. 0)) = Inr s
          \<and> length (chartData s) = 2 \<and> length (chartData s) \<le> 30"
  proof (intro exI [of _ s] conjI)
    show "chartRun ?es (chartMounted (\<lambda>n. 0) (\<lambda>n. 0)) = Inr s" by (rule r)
    show "length (chartData s) = 2" by (rule l2)
    show "length (chartData s) \<le> 30" by (rule c)
  qed
  have e: "length (thirtyCandles @ thirtyCandles) = 60" using l30 by simp
  have f: "30 \<le> length thirtyCandles" using l30 by simp
  from l5 a f e b d show ?thesis by (intro conjI)
qed

section \<open>C1: the crash is detected on the tick\<close>

lemma gameTick_crash:
  assumes "isCrash (crashPoint_st s) (fst (tickPrice (targetPrice s) (rand s)))"
  shows "phase (gameTick s) = crashed"
    and "synced (gameTick s) = synced s @
          [\<lparr> isGameActive = False, currentMultiplier = crashPoint_st s, crashPoint = crashPoint_st s \<rparr>]"
    and "targetPrice (gameTick s) = crashPoint_st s"
    and "crashPoint_st (gameTick s) = crashPoint_st s"
  using assms by (simp_all add: gameTick_def syncToBetting_def Let_def split_def)

lemma gameTick_no_crash:
  assumes "\<not> isCrash (crashPoint_st s) (fst (tickPrice (targetPrice s) (rand s)))"
  shows "phase (gameTick s) = phase s"
    and "synced (gameTick s) = synced s @
          [\<lparr> isGameActive = True, currentMultiplier = fst (tickPrice (targetPrice s) (rand s)),
             crashPoint = crashPoint_st s \<rparr>]"
    and "targetPrice (gameTick s) = fst (tickPrice (targetPrice s) (rand s))"
    and "crashPoint_st (gameTick s) = crashPoint_st s"
  using assms by (simp_all add: gameTick_def syncToBetting_def Let_def split_def)

lemma candleTick_total:
  assumes "chartData t \<noteq> []"
  shows "\<exists>c' t'. candleTick c t = Inr (c', t')"
proof -
  obtain v g1 where vg: "generatePriceMovement (targetPriceValue c) 0.08 (rnd t) = (v, g1)"
    by (cases "generatePriceMovement (targetPriceValue c) 0.08 (rnd t)")
  obtain now k1 where nk: "Date_now (clk t) = (now, k1)" by (cases "Date_now (clk t)")
  have "\<exists>cd g2. tickChartData (testMode c) now v g1 (chartData t) = Inr (cd, g2)"
  proof (cases "now - time (chartData t ! (length (chartData t) - 1)) \<ge> (if testMode c then 500 else 3000)")
    case False
    with assms show ?thesis by (simp add: tickChartData_def Let_def)
  next
    case True
    obtain vol g' where v: "generateVolume 1000000 0.3 g1 = (vol, g')"
      by (cases "generateVolume 1000000 0.3 g1")
    from performCandleAggregation_total obtain ys where
      "performCandleAggregation (butlast (chartData t) @
         [updatedLastCandle (chartData t ! (length (chartData t) - 1)) v,
          \<lparr> open_c = v, high = v, low = v, close = v, time = now, volume = Some vol \<rparr>]) = Inr ys"
      by blast
    with True assms v show ?thesis by (simp add: tickChartData_def Let_def)
  qed
  then obtain cd g2 where t: "tickChartData (testMode c) now v g1 (chartData t) = Inr (cd, g2)"
    by blast
  obtain f ga ka where f: "finalizedCurrentCandle (c\<lparr> targetPriceValue := v \<rparr>) g2 k1 = (f, ga, ka)"
    by (cases "finalizedCurrentCandle (c\<lparr> targetPriceValue := v \<rparr>) g2 k1")
  obtain x gb kb where x: "crashCandle (c\<lparr> targetPriceValue := v \<rparr>) ga ka = (x, gb, kb)"
    by (cases "crashCandle (c\<lparr> targetPriceValue := v \<rparr>) ga ka")
  from performCandleAggregation_total obtain zs where
    "performCandleAggregation (butlast cd @ [f, x]) = Inr zs" by blast
  with f x have cr: "crashChartData (c\<lparr> targetPriceValue := v \<rparr>) g2 k1 cd = Inr (zs, gb, kb)"
    by (simp add: crashChartData_def)
  show ?thesis
    using vg nk t cr by (simp add: candleTick_def Let_def)
qed

lemma candleTick_gameState:
  assumes "candleTick c t = Inr (c', t')"
  shows "targetPriceValue c' = fst (generatePriceMovement (targetPriceValue c) 0.08 (rnd t))"
    and "(newCrashPoint c < 1.0 \<and> targetPriceValue c' \<le> newCrashPoint c)
           \<or> (newCrashPoint c \<ge> 1.0 \<and> targetPriceValue c' \<ge> newCrashPoint c)
         \<Longrightarrow> hasCrashed (gameState t') \<and> \<not> isActive (gameState t')
             \<and> crashPoint_gs (gameState t') = newCrashPoint c
             \<and> multiplier (gameState t') = targetPriceValue c'
             \<and> bettingSync t' = bettingSync t @
                  [\<lparr> isGameActive = False, currentMultiplier = newCrashPoint c,
                     crashPoint = newCrashPoint c \<rparr>,
                   \<lparr> isGameActive = False, currentMultiplier = targetPriceValue c',
                     crashPoint = newCrashPoint c \<rparr>]"
    and "\<not> ((newCrashPoint c < 1.0 \<and> targetPriceValue c' \<le> newCrashPoint c)
           \<or> (newCrashPoint c \<ge> 1.0 \<and> targetPriceValue c' \<ge> newCrashPoint c))
         \<Longrightarrow> gameState t' = (gameState t)\<lparr> multiplier := targetPriceValue c' \<rparr>
             \<and> bettingSync t' = bettingSync t @
                  [\<lparr> isGameActive = isActive (gameState t), currentMultiplier = targetPriceValue c',
                     crashPoint = crashPoint_gs (gameState t) \<rparr>]"
proof -
  obtain v g1 where vg: "generatePriceMovement (targetPriceValue c) 0.08 (rnd t) = (v, g1)"
    by (cases "generatePriceMovement (targetPriceValue c) 0.08 (rnd t)")
  obtain now k1 where nk: "Date_now (clk t) = (now, k1)" by (cases "Date_now (clk t)")
  obtain cd g2 where tc: "tickChartData (testMode c) now v g1 (chartData t) = Inr (cd, g2)"
    using assms vg nk by (cases "tickChartData (testMode c) now v g1 (chartData t)")
      (auto simp add: candleTick_def)
  have c': "c' = c\<lparr> targetPriceValue := v \<rparr>"
    using assms vg nk tc
    by (auto simp add: candleTick_def Let_def split: if_splits sum.splits)
  then show "targetPriceValue c' = fst (generatePriceMovement (targetPriceValue c) 0.08 (rnd t))"
    using vg by simp
  show "gameState t' = (gameState t)\<lparr> multiplier := targetPriceValue c' \<rparr>
             \<and> bettingSync t' = bettingSync t @
                  [\<lparr> isGameActive = isActive (gameState t), currentMultiplier = targetPriceValue c',
                     crashPoint = crashPoint_gs (gameState t) \<rparr>]"
    if "\<not> ((newCrashPoint c < 1.0 \<and> targetPriceValue c' \<le> newCrashPoint c)
           \<or> (newCrashPoint c \<ge> 1.0 \<and> targetPriceValue c' \<ge> newCrashPoint c))"
    using that assms vg nk tc c'
    by (auto simp add: candleTick_def Let_def)
  show "hasCrashed (gameState t') \<and> \<not> isActive (gameState t')
             \<and> crashPoint_gs (gameState t') = newCrashPoint c
             \<and> multiplier (gameState t') = targetPriceValue c'
             \<and> bettingSync t' = bettingSync t @
                  [\<lparr> isGameActive = False, currentMultiplier = newCrashPoint c,
                     crashPoint = newCrashPoint c \<rparr>,
                   \<lparr> isGameActive = False, currentMultiplier = targetPriceValue c',
                     crashPoint = newCrashPoint c \<rparr>]"
    if cr: "(newCrashPoint c < 1.0 \<and> targetPriceValue c' \<le> newCrashPoint c)
           \<or> (newCrashPoint c \<ge> 1.0 \<and> targetPriceValue c' \<ge> newCrashPoint c)"
  proof (cases "crashChartData (c\<lparr> targetPriceValue := v \<rparr>) g2 k1 cd")
    case (Inl e)
    with cr assms vg nk tc c' show ?thesis by (auto simp add: candleTick_def Let_def)
  next
    case (Inr q)
    obtain cd' g3 k3 where q: "q = (cd', g3, k3)" by (cases q)
    with Inr cr assms vg nk tc c' show ?thesis
      by (auto simp add: candleTick_def Let_def)
  qed
qed

text \<open>
  The tick of CrashChart: on a tick of a running round the phase is crashed afterwards
  exactly when the stepped price meets the crash condition, and the snapshot sent on the
  crash carries the crash point.
\<close>

lemma crashChart_tick:
  assumes "phase s = running"
  shows "phase (step GameTick s) = crashed \<longleftrightarrow>
           (crashPoint_st s < 1.0 \<and> fst (tickPrice (targetPrice s) (rand s)) \<le> crashPoint_st s)
           \<or> (crashPoint_st s \<ge> 1.0 \<and> fst (tickPrice (targetPrice s) (rand s)) \<ge> crashPoint_st s)"
    and "phase (step GameTick s) = crashed \<Longrightarrow>
           synced (step GameTick s) = synced s @
             [\<lparr> isGameActive = False, currentMultiplier = crashPoint_st s,
                crashPoint = crashPoint_st s \<rparr>]
           \<and> targetPrice (step GameTick s) = crashPoint_st s"
    and "phase (step GameTick s) \<noteq> crashed \<Longrightarrow>
           phase (step GameTick s) = running
           \<and> synced (step GameTick s) = synced s @
             [\<lparr> isGameActive = True,
                currentMultiplier = fst (tickPrice (targetPrice s) (rand s)),
                crashPoint = crashPoint_st s \<rparr>]
           \<and> targetPrice (step GameTick s) = fst (tickPrice (targetPrice s) (rand s))"
proof -
  show "phase (step GameTick s) = crashed \<longleftrightarrow>
           (crashPoint_st s < 1.0 \<and> fst (tickPrice (targetPrice s) (rand s)) \<le> crashPoint_st s)
           \<or> (crashPoint_st s \<ge> 1.0 \<and> fst (tickPrice (targetPrice s) (rand s)) \<ge> crashPoint_st s)"
  proof (cases "isCrash (crashPoint_st s) (fst (tickPrice (targetPrice s) (rand s)))")
    case True
    with assms gameTick_crash(1) [OF True] show ?thesis by (simp add: isCrash_def)
  next
    case False
    with assms gameTick_no_crash(1) [OF False] show ?thesis by (simp add: isCrash_def)
  qed
  show "synced (step GameTick s) = synced s @
             [\<lparr> isGameActive = False, currentMultiplier = crashPoint_st s,
                crashPoint = crashPoint_st s \<rparr>]
           \<and> targetPrice (step GameTick s) = crashPoint_st s"
    if "phase (step GameTick s) = crashed"
  proof (cases "isCrash (crashPoint_st s) (fst (tickPrice (targetPrice s) (rand s)))")
    case True
    with assms gameTick_crash [OF True] show ?thesis by simp
  next
    case False
    with assms that gameTick_no_crash(1) [OF False] show ?thesis by simp
  qed
  show "phase (step GameTick s) = running
           \<and> synced (step GameTick s) = synced s @
             [\<lparr> isGameActive = True,
                currentMultiplier = fst (tickPrice (targetPrice s) (rand s)),
                crashPoint = crashPoint_st s \<rparr>]
           \<and> targetPrice (step GameTick s) = fst (tickPrice (targetPrice s) (rand s))"
    if "phase (step GameTick s) \<noteq> crashed"
  proof (cases "isCrash (crashPoint_st s) (fst (tickPrice (targetPrice s) (rand s)))")
    case True
    with assms that gameTick_crash(1) [OF True] show ?thesis by simp
  next
    case False
    with assms gameTick_no_crash [OF False] show ?thesis by simp
  qed
qed

lemmas crashChart_eval =
  mounted_def startGame_def gameTick_def tickPrice_def isCrash_def updateCandles_def
  syncToBetting_def generateCrashPoint_CrashChart_def Math_random_def Let_def
  INITIAL_PRICE_def TICKS_PER_CANDLE_def COUNTDOWN_SECONDS_def crashDelayElapsed_def
  countdownTick_def

lemma fourTicks_fields:
  "phase fourTicks = running" "targetPrice fourTicks = 0.5184" "crashPoint_st fourTicks = 0.5"
  "rand fourTicks = (\<lambda>n. 0)"
  by (simp_all add: fourTicks_def crashChart_eval)

lemma fourTicks_next: "fst (tickPrice (targetPrice fourTicks) (rand fourTicks)) = 0.398"
  by (simp add: fourTicks_fields tickPrice_def Math_random_def Let_def)

text \<open>The fifth tick of that round crashes and publishes the crash point 0.5, not 0.398.\<close>

lemma fourTicks_crash:
  "phase (step GameTick fourTicks) = crashed
   \<and> last (synced (step GameTick fourTicks))
       = \<lparr> isGameActive = False, currentMultiplier = 0.5, crashPoint = 0.5 \<rparr>
   \<and> targetPrice (step GameTick fourTicks) = 0.5"
proof -
  have a: "phase (step GameTick fourTicks) = crashed"
    using crashChart_tick(1) [OF fourTicks_fields(1)]
    by (simp add: fourTicks_fields(3) fourTicks_next)
  from crashChart_tick(2) [OF fourTicks_fields(1) a]
  show ?thesis using a by (simp add: fourTicks_fields(3))
qed

text \<open>
  Claim C1 says that the tick that steps to a price meeting the crash condition goes to
  crashed within that tick, and that the snapshot published on the crash carries the
  crash point as its multiplier, not the price stepped to. The tick of CrashChart does
  both (lemmas \<open>crashChart_tick\<close>, \<open>fourTicks_crash\<close>). The tick of CandlestickChart
  detects the crash within the tick and sends the snapshot with the crash point, but the
  update that sets the multiplier to the new price, issued from inside the updater of the
  chart data, runs after it (lemma \<open>candleTick_gameState\<close>): in the round below, whose
  crash point is 0.745, the first tick steps from 1 to 0.744 and crashes; the snapshot
  with the multiplier 0.745 is followed by one with the multiplier 0.744, and 0.744 is
  the multiplier the game state is left with.
\<close>

theorem candlestick_crash_publishes_overshoot:
  "\<exists>s. chartRun [StartNewGame False [], FirstCandleTimeout, Fire 2]
          (chartMounted halvesThenZeros advancing) = Inr s
     \<and> hasCrashed (gameState s) \<and> \<not> isActive (gameState s)
     \<and> crashPoint_gs (gameState s) = 0.745
     \<and> multiplier (gameState s) = 0.744
     \<and> bettingSync s =
         [\<lparr> isGameActive = True, currentMultiplier = 1, crashPoint = 0 \<rparr>,
          \<lparr> isGameActive = True, currentMultiplier = 1, crashPoint = 0 \<rparr>,
          \<lparr> isGameActive = True, currentMultiplier = 1, crashPoint = 0.745 \<rparr>,
          \<lparr> isGameActive = False, currentMultiplier = 0.745, crashPoint = 0.745 \<rparr>,
          \<lparr> isGameActive = False, currentMultiplier = 0.744, crashPoint = 0.745 \<rparr>]"
  by (simp add: chart_eval halvesThenZeros_def advancing_def)

section \<open>C8: the phases of CrashChart\<close>

lemma phase_startGame: "phase (startGame s) = running"
  by (simp add: startGame_def syncToBetting_def Let_def split_def)

lemma phase_gameTick: "phase (gameTick s) = crashed \<or> phase (gameTick s) = phase s"
  by (simp add: gameTick_def syncToBetting_def Let_def split_def)

lemma phase_countdownTick:
  "phase (countdownTick s) = (if countdown s \<le> 1 then running else phase s)"
  by (simp add: countdownTick_def phase_startGame)

lemma phase_step_edges:
  "phase (step e s) = phase s
   \<or> (phase s = waiting \<and> phase (step e s) = running)
   \<or> (phase s = running \<and> phase (step e s) = crashed)
   \<or> (phase s = crashed \<and> phase (step e s) = running)"
proof (cases e)
  case StartTimeout
  then show ?thesis by (cases "phase s") (simp_all add: phase_startGame)
next
  case GameTick
  then show ?thesis using phase_gameTick [of s] by auto
next
  case CrashDelayElapsed
  then show ?thesis by (simp add: crashDelayElapsed_def)
next
  case CountdownTick
  then show ?thesis by (cases "phase s") (simp_all add: phase_countdownTick)
next
  case RenderFrame
  then show ?thesis by (simp add: renderFrame_def)
qed

lemma never_waiting_again: "phase (step e s) = waiting \<Longrightarrow> phase s = waiting"
  using phase_step_edges [of e s] by auto

lemma crashed_only_by_tick:
  "phase (step e s) = crashed \<Longrightarrow> phase s \<noteq> crashed \<Longrightarrow> e = GameTick \<and> phase s = running"
  by (cases e) (auto simp add: phase_startGame crashDelayElapsed_def phase_countdownTick
      renderFrame_def split: if_splits)

lemma crashed_until_started:
  "phase s = crashed \<Longrightarrow> phase (step e s) = crashed
     \<or> (phase (step e s) = running
         \<and> ((e = StartTimeout \<and> startTimeout s) \<or> (e = CountdownTick \<and> countdown s = 1)))"
  by (cases e) (auto simp add: phase_startGame crashDelayElapsed_def phase_countdownTick
      renderFrame_def split: if_splits)

text \<open>
  Claim C8 says that the phase only goes round waiting, running, crashed and back to
  waiting, and that crashed is entered once per round. In CrashChart.tsx nothing sets
  the phase back to waiting: the countdown runs while the phase is still crashed, and at
  its end \<^verbatim>\<open>startGame\<close> sets the phase to running. The run below (every draw 0: the
  crash point is 0.5 and the fifth tick crashes) shows the phases passed through: from
  crashed the component goes to running. What does hold is in the lemmas above: waiting
  is never entered again, crashed is entered only by a tick of a running round, and is
  left only when a game is started.
\<close>

theorem crashed_goes_to_running:
  "map phase (trace [StartTimeout, GameTick, GameTick, GameTick, GameTick, GameTick,
                     CrashDelayElapsed, CountdownTick, CountdownTick, CountdownTick,
                     CountdownTick, CountdownTick] (mounted (\<lambda>n. 0)))
   = [waiting, running, running, running, running, running, crashed, crashed, crashed,
      crashed, crashed, crashed, running]"
  by (simp add: mounted_def startGame_def gameTick_def tickPrice_def isCrash_def updateCandles_def
  syncToBetting_def generateCrashPoint_CrashChart_def Math_random_def Let_def
  INITIAL_PRICE_def TICKS_PER_CANDLE_def COUNTDOWN_SECONDS_def crashDelayElapsed_def
  countdownTick_def)

section \<open>C9: the ticks of an old round\<close>

















end
